theory Spec2Isabelle
  imports Complex_Main "HOL-Library.Word" "HOL-Library.Signed_Division" "HOL-Library.Finite_Map"
    "HOL-Library.Char_ord" "HOL-Library.List_Lexorder"
begin

unbundle bit_operations_syntax

section \<open>Shared types\<close>

text \<open>
  Go's \<open>int\<close> is a 64-bit two's complement integer on the platforms the dashboard is
  built for; \<open>+\<close> wraps around silently. Where a sum of caller-supplied values is
  taken (Funnel and PieChart) it is a \<open>64 word\<close>, read with \<open>sint\<close>.
  Lengths, indices, cell and dot coordinates stay far below the word size and are
  \<open>nat\<close> and \<open>int\<close>.
\<close>

type_synonym go_int = "64 word"

text \<open>termdash's \<open>cell.Color\<close>, with the colours the widgets name.\<close>

datatype Color = ColorDefault | ColorBlack | ColorRed | ColorBlue | ColorWhite | ColorNumber int

text \<open>
  The errors the widgets return, one constructor per \<open>errors.New\<close> / \<open>fmt.Errorf\<close> site;
  \<open>Panic\<close> is a run-time panic (a slice bound or a division by zero), \<open>External\<close> an
  error returned by the terminal library, and \<open>Wrapped\<close> an error wrapped in a message
  by \<open>fmt.Errorf("... %v", err)\<close>.
\<close>

datatype error =
    ValuesEmpty
  | ColorsEmpty
  | NegativeValue
  | RadarTooFewValues
  | RadarMaxNotPositive
  | RadarValueOutOfRange
  | TableColumnMismatch nat nat
  | TableNothingToDraw
  | TableNoSpace
  | Panic
  | External string
  | Wrapped string error

text \<open>
  A \<open>float64\<close> as far as the widgets compare it: not-a-number, the two infinities
  and the finite values, which are real numbers. The comparisons are IEEE 754's:
  every comparison with \<open>NaN\<close> is false.
\<close>

datatype float64 = NaN | NegInf | Finite real | PosInf

fun f64_lt :: "float64 \<Rightarrow> float64 \<Rightarrow> bool" where
  "f64_lt NaN b = False"
| "f64_lt a NaN = False"
| "f64_lt PosInf b = False"
| "f64_lt a NegInf = False"
| "f64_lt NegInf b = True"
| "f64_lt a PosInf = True"
| "f64_lt (Finite x) (Finite y) = (x < y)"

fun f64_le :: "float64 \<Rightarrow> float64 \<Rightarrow> bool" where
  "f64_le NaN b = False"
| "f64_le a NaN = False"
| "f64_le NegInf b = True"
| "f64_le a PosInf = True"
| "f64_le PosInf b = False"
| "f64_le a NegInf = False"
| "f64_le (Finite x) (Finite y) = (x \<le> y)"

definition f64_gt :: "float64 \<Rightarrow> float64 \<Rightarrow> bool" where
  "f64_gt a b = f64_lt b a"

section \<open>Funnel (widgets/funnel.go)\<close>

record Funnel =
  funnel_values :: "go_int list"
  funnel_colors :: "Color list"
  funnel_total :: go_int

definition NewFunnel :: Funnel where
  "NewFunnel = \<lparr>funnel_values = [], funnel_colors = [], funnel_total = 0\<rparr>"

text \<open>
  The \<open>for _, v := range values\<close> loop of \<open>Funnel.Values\<close>: it returns from inside
  the loop at the first negative value, after the fields have been assigned and
  while \<open>total\<close> holds the sum of the values before it.
\<close>

fun funnel_sum_loop :: "Funnel \<Rightarrow> go_int list \<Rightarrow> Funnel \<times> error option" where
  "funnel_sum_loop f [] = (f, None)"
| "funnel_sum_loop f (v # vs) =
     (if v <s 0 then (f, Some NegativeValue)
      else funnel_sum_loop (f\<lparr>funnel_total := funnel_total f + v\<rparr>) vs)"

definition Funnel_Values :: "Funnel \<Rightarrow> go_int list \<Rightarrow> Color list \<Rightarrow> Funnel \<times> error option" where
  "Funnel_Values f vals cols =
     (if length vals = 0 then (f, Some ValuesEmpty)
      else if length cols = 0 then (f, Some ColorsEmpty)
      else funnel_sum_loop
             (f\<lparr>funnel_values := vals, funnel_colors := cols, funnel_total := 0\<rparr>) vals)"

section \<open>PieChart (the pie chart widget)\<close>

record PieChart =
  pie_values :: "go_int list"
  pie_colors :: "Color list"
  pie_total :: go_int

definition NewPieChart :: PieChart where
  "NewPieChart = \<lparr>pie_values = [], pie_colors = [], pie_total = 0\<rparr>"

fun pie_sum_loop :: "PieChart \<Rightarrow> go_int list \<Rightarrow> PieChart \<times> error option" where
  "pie_sum_loop p [] = (p, None)"
| "pie_sum_loop p (v # vs) =
     (if v <s 0 then (p, Some NegativeValue)
      else pie_sum_loop (p\<lparr>pie_total := pie_total p + v\<rparr>) vs)"

definition PieChart_Values :: "PieChart \<Rightarrow> go_int list \<Rightarrow> Color list \<Rightarrow> PieChart \<times> error option" where
  "PieChart_Values p vals cols =
     (if length vals = 0 then (p, Some ValuesEmpty)
      else if length cols = 0 then (p, Some ColorsEmpty)
      else pie_sum_loop
             (p\<lparr>pie_values := vals, pie_colors := cols, pie_total := 0\<rparr>) vals)"

section \<open>Radar (widgets/radar.go)\<close>

record radarOptions =
  axisCellOpts :: Color
  dataCellOpts :: Color

definition newRadarOptions :: radarOptions where
  "newRadarOptions = \<lparr>axisCellOpts = ColorNumber 240, dataCellOpts = ColorNumber 42\<rparr>"

datatype RadarOption = WithAxisColor int | WithDataColor int

fun radar_set :: "RadarOption \<Rightarrow> radarOptions \<Rightarrow> radarOptions" where
  "radar_set (WithAxisColor c) opts = opts\<lparr>axisCellOpts := ColorNumber c\<rparr>"
| "radar_set (WithDataColor c) opts = opts\<lparr>dataCellOpts := ColorNumber c\<rparr>"

text \<open>\<open>radarOptions.validate\<close> returns nil for every option set.\<close>

definition radar_validate :: "radarOptions \<Rightarrow> error option" where
  "radar_validate opts = None"

text \<open>The \<open>Values\<close> struct: \<open>Data\<close> is a Go map, \<open>Max\<close> the declared maximum.\<close>

record Values =
  Values_Data :: "(string, float64) fmap"
  Values_Max :: float64

text \<open>The radar holds a pointer to the values (nil until the first accepted update).\<close>

record Radar =
  radar_values :: "Values option"
  radar_opts :: radarOptions

definition NewRadar :: "RadarOption list \<Rightarrow> error + Radar" where
  "NewRadar ropts =
     (let opt = foldl (\<lambda>acc x. radar_set x acc) newRadarOptions ropts in
      case radar_validate opt of
        Some e \<Rightarrow> Inl e
      | None \<Rightarrow> Inr \<lparr>radar_values = None, radar_opts = opt\<rparr>)"

text \<open>
  \<open>Radar.SetValues\<close>. The range loop returns at a value with \<open>v < 0 || v > vals.Max\<close>;
  the order in which a Go map is ranged over only decides which offending value the
  message prints, so the error carries none.
\<close>

definition Radar_SetValues :: "Radar \<Rightarrow> Values option \<Rightarrow> RadarOption list \<Rightarrow> Radar \<times> error option" where
  "Radar_SetValues r vals ropts =
     (case vals of
        None \<Rightarrow> (r, Some RadarTooFewValues)
      | Some v \<Rightarrow>
          if fcard (fmdom (Values_Data v)) < 3 then (r, Some RadarTooFewValues)
          else if f64_le (Values_Max v) (Finite 0) then (r, Some RadarMaxNotPositive)
          else if \<not> fmpred (\<lambda>k x. \<not> (f64_lt x (Finite 0) \<or> f64_gt x (Values_Max v))) (Values_Data v)
            then (r, Some RadarValueOutOfRange)
          else
            (let r1 = r\<lparr>radar_opts := foldl (\<lambda>acc x. radar_set x acc) (radar_opts r) ropts\<rparr> in
             case radar_validate (radar_opts r1) of
               Some e \<Rightarrow> (r1, Some e)
             | None \<Rightarrow> (r1\<lparr>radar_values := Some v\<rparr>, None)))"

section \<open>The grid layout (dynamicGridLayout in the dashboard's main package)\<close>

text \<open>
  The widgets in the order of the configuration, each with its grid element and its
  configured type (the field \<open>typ\<close>, here \<open>wtyp\<close>), as \<open>dynamicGridLayout\<close> collects them in
  \<open>widgetList\<close>.
\<close>

record 'e widgetWithConfig =
  element :: 'e
  wtyp :: string
  title :: string

text \<open>The \<open>switch w.typ\<close> that picks the column width of a widget.\<close>

definition widgetWidth :: "string \<Rightarrow> int" where
  "widgetWidth t =
     (if t = ''pie'' \<or> t = ''donut'' \<or> t = ''gauge'' \<or> t = ''radar'' then 30 else 50)"

text \<open>
  The loop over \<open>widgetList\<close>: the state is \<open>rows\<close>, \<open>currentRow\<close> and \<open>currentWidth\<close>;
  \<open>grid.ColWidthPerc(widgetWidth, w.element)\<close> is the pair of the width and the element.
\<close>

type_synonym 'e packState = "(int \<times> 'e) list list \<times> (int \<times> 'e) list \<times> int"

definition packStep :: "'e packState \<Rightarrow> 'e widgetWithConfig \<Rightarrow> 'e packState" where
  "packStep st w =
     (case st of (rows, currentRow, currentWidth) \<Rightarrow>
        if currentWidth + widgetWidth (wtyp w) > 100 \<and> length currentRow > 0
        then (rows @ [currentRow], [(widgetWidth (wtyp w), element w)], widgetWidth (wtyp w))
        else (rows, currentRow @ [(widgetWidth (wtyp w), element w)],
              currentWidth + widgetWidth (wtyp w)))"

text \<open>The loop, then \<open>if len(currentRow) > 0 { rows = append(rows, currentRow) }\<close>.\<close>

definition packRows :: "'e widgetWithConfig list \<Rightarrow> (int \<times> 'e) list list" where
  "packRows widgetList =
     (case foldl packStep ([], [], 0) widgetList of
        (rows, currentRow, currentWidth) \<Rightarrow>
          if length currentRow > 0 then rows @ [currentRow] else rows)"

definition rowWidth :: "(int \<times> 'e) list \<Rightarrow> int" where
  "rowWidth row = sum_list (map fst row)"

text \<open>
  What holds of \<open>rows\<close>, \<open>currentRow\<close> and \<open>currentWidth\<close> after the loop has seen the
  widgets \<open>ws\<close>: the invariant of the packing loop.
\<close>

definition packInv :: "'e widgetWithConfig list \<Rightarrow> 'e packState \<Rightarrow> bool" where
  "packInv ws st =
     (case st of (rws, cur, cw) \<Rightarrow>
        cw = rowWidth cur \<and> cw \<le> 100
        \<and> concat rws @ cur = map (\<lambda>w. (widgetWidth (wtyp w), element w)) ws
        \<and> (\<forall>row\<in>set rws. row \<noteq> [] \<and> rowWidth row \<le> 100)
        \<and> (rws \<noteq> [] \<longrightarrow> cur \<noteq> [])
        \<and> (\<forall>i. Suc i < length (rws @ [cur]) \<longrightarrow>
              rowWidth ((rws @ [cur]) ! i) + fst (hd ((rws @ [cur]) ! Suc i)) > 100))"

section \<open>Table (widgets/table.go)\<close>

record Cell =
  cell_text :: string

definition NewCell :: "string \<Rightarrow> Cell" where
  "NewCell t = \<lparr>cell_text = t\<rparr>"

record tableOptions =
  minColWidth :: int
  opt_rowsPerPage :: int
  cellFillColor :: Color
  cellTextColor :: Color
  headerFillColor :: Color
  headerTextColor :: Color
  pageIndicatorBgColor :: Color
  pageIndicatorFgColor :: Color

definition newTableOptions :: tableOptions where
  "newTableOptions =
     \<lparr>minColWidth = 10, opt_rowsPerPage = 5,
      cellFillColor = ColorDefault, cellTextColor = ColorDefault,
      headerFillColor = ColorBlack, headerTextColor = ColorWhite,
      pageIndicatorBgColor = ColorBlack, pageIndicatorFgColor = ColorWhite\<rparr>"

text \<open>The three option constructors of the package; \<open>RowsPerPage\<close> ignores a count below 1.\<close>

datatype TableOption = CellFillColor Color | HeaderFillColor Color | RowsPerPage int

fun table_set :: "TableOption \<Rightarrow> tableOptions \<Rightarrow> tableOptions" where
  "table_set (CellFillColor c) opts = opts\<lparr>cellFillColor := c\<rparr>"
| "table_set (HeaderFillColor c) opts = opts\<lparr>headerFillColor := c\<rparr>"
| "table_set (RowsPerPage n) opts = (if n > 0 then opts\<lparr>opt_rowsPerPage := n\<rparr> else opts)"

text \<open>\<open>image.Rectangle\<close>: the corners \<open>Min\<close> and \<open>Max\<close>, each an \<open>image.Point\<close>.\<close>

type_synonym point = "int \<times> int"

record Rectangle =
  rect_Min :: point
  rect_Max :: point

definition ZR :: Rectangle where
  "ZR = \<lparr>rect_Min = (0, 0), rect_Max = (0, 0)\<rparr>"

record Table =
  headers :: "Cell list"
  rows :: "Cell list list"
  table_opts :: tableOptions
  currentPage :: int
  rowsPerPage :: int
  numPages :: int
  prevButtonRect :: Rectangle
  nextButtonRect :: Rectangle

text \<open>
  \<open>NewTable\<close>. The page count is \<open>int(math.Ceil(float64(numRows) / float64(rowsPerPage)))\<close>,
  the ceiling of the quotient (the quotient of two counts is far from where a
  \<open>float64\<close> rounds across an integer). The two \<open>button.New\<close> calls get a non-empty
  label and a non-nil callback, for which termdash returns no error; the callbacks
  are \<open>prevPage\<close> and \<open>nextPage\<close> below.
\<close>

definition table_numCols :: "Cell list \<Rightarrow> Cell list list \<Rightarrow> nat" where
  "table_numCols hs rs =
     (if length hs > 0 then length hs
      else (case rs of [] \<Rightarrow> 0 | r0 # rest \<Rightarrow> length r0))"

definition table_numPages :: "int \<Rightarrow> int \<Rightarrow> int" where
  "table_numPages numRows rpp =
     (let n = (if numRows > 0 \<and> rpp > 0
               then \<lceil>real_of_int numRows / real_of_int rpp\<rceil> else 0)
      in if n = 0 \<and> numRows > 0 then 1 else n)"

definition NewTable :: "Cell list \<Rightarrow> Cell list list \<Rightarrow> TableOption list \<Rightarrow> error + Table" where
  "NewTable hs rs topts =
     (let numCols = table_numCols hs rs in
      case find (\<lambda>row. length row \<noteq> numCols) rs of
        Some row \<Rightarrow> Inl (TableColumnMismatch numCols (length row))
      | None \<Rightarrow>
          (let opt = foldl (\<lambda>acc x. table_set x acc) newTableOptions topts in
           Inr \<lparr>headers = hs, rows = rs, table_opts = opt, currentPage = 0,
                rowsPerPage = opt_rowsPerPage opt,
                numPages = table_numPages (int (length rs)) (opt_rowsPerPage opt),
                prevButtonRect = ZR, nextButtonRect = ZR\<rparr>))"

definition nextPage :: "Table \<Rightarrow> Table" where
  "nextPage t =
     (if numPages t \<le> 1 then t
      else if currentPage t + 1 \<ge> numPages t then t
      else t\<lparr>currentPage := currentPage t + 1\<rparr>)"

definition prevPage :: "Table \<Rightarrow> Table" where
  "prevPage t =
     (if numPages t \<le> 1 then t
      else if currentPage t \<le> 0 then t
      else t\<lparr>currentPage := currentPage t - 1\<rparr>)"

text \<open>\<open>image.Point.In\<close>: the rectangle contains its \<open>Min\<close> edge and excludes its \<open>Max\<close> edge.\<close>

definition point_In :: "point \<Rightarrow> Rectangle \<Rightarrow> bool" where
  "point_In p r =
     (fst (rect_Min r) \<le> fst p \<and> fst p < fst (rect_Max r)
      \<and> snd (rect_Min r) \<le> snd p \<and> snd p < snd (rect_Max r))"

text \<open>\<open>Table.Mouse\<close>, given the pressed button's number and the position of the click.\<close>

definition Table_Mouse :: "Table \<Rightarrow> int \<Rightarrow> point \<Rightarrow> Table" where
  "Table_Mouse t button pos =
     (if button > 0 then
        (if point_In pos (prevButtonRect t) then prevPage t
         else if point_In pos (nextButtonRect t) then nextPage t
         else t)
      else t)"

section \<open>Histogram (the histogram widget)\<close>

type_synonym rune = "32 word"

record Histogram =
  bins :: "int list"
  hist_min :: float64
  hist_max :: float64
  labels :: "string list"
  barColor :: Color
  alertBin :: int
  alertCol :: Color

definition NewHistogram :: Histogram where
  "NewHistogram =
     \<lparr>bins = [], hist_min = Finite 0, hist_max = Finite 0, labels = [],
      barColor = ColorNumber 42, alertBin = - 1, alertCol = ColorRed\<rparr>"

definition Histogram_SetAlertColor :: "Histogram \<Rightarrow> Color \<Rightarrow> Histogram" where
  "Histogram_SetAlertColor h col = h\<lparr>alertCol := col\<rparr>"

definition Histogram_SetBins ::
  "Histogram \<Rightarrow> int list \<Rightarrow> float64 \<Rightarrow> float64 \<Rightarrow> string list \<Rightarrow> int \<Rightarrow> Histogram \<times> error option"
  where
  "Histogram_SetBins h bs mn mx ls ab =
     (h\<lparr>bins := bs, hist_min := mn, hist_max := mx, labels := ls, alertBin := ab\<rparr>, None)"

text \<open>
  The two maps of one \<open>Draw\<close>: \<open>brailleMap\<close> from a terminal cell to its rune and
  \<open>colorMap\<close> from a cell to its colour. A rune is an \<open>int32\<close>.
\<close>

type_synonym dotState = "(point \<rightharpoonup> rune) \<times> (point \<rightharpoonup> Color)"

text \<open>
  The closure \<open>setDot\<close> of \<open>Histogram.Draw\<close>. Go's \<open>/\<close> and \<open>%\<close> truncate towards
  zero (\<open>sdiv\<close>, \<open>smod\<close>); a \<open>switch\<close> with no matching case leaves \<open>mask\<close> at 0.
\<close>

definition setDot :: "dotState \<Rightarrow> int \<Rightarrow> int \<Rightarrow> Color \<Rightarrow> dotState" where
  "setDot st bx by col =
     (case st of (brailleMap, colorMap) \<Rightarrow>
        let cellX = bx sdiv 2;
            cellY = by sdiv 4;
            subX = bx smod 2;
            subY = by smod 4;
            mask = (if subX = 0 \<and> subY = 0 then 0x01
                    else if subX = 0 \<and> subY = 1 then 0x02
                    else if subX = 0 \<and> subY = 2 then 0x04
                    else if subX = 0 \<and> subY = 3 then 0x40
                    else if subX = 1 \<and> subY = 0 then 0x08
                    else if subX = 1 \<and> subY = 1 then 0x10
                    else if subX = 1 \<and> subY = 2 then 0x20
                    else if subX = 1 \<and> subY = 3 then 0x80
                    else 0);
            pt = (cellX, cellY)
        in ((case brailleMap pt of
               Some r \<Rightarrow> brailleMap(pt \<mapsto> r OR mask)
             | None \<Rightarrow> brailleMap(pt \<mapsto> 0x2800 OR mask)),
            colorMap(pt \<mapsto> col)))"

text \<open>
  The conversion \<open>int(x)\<close> of a finite \<open>float64\<close> truncates towards zero. The
  quotients and products that \<open>Draw\<close> converts are computed here in exact
  arithmetic.
\<close>

definition f2i :: "real \<Rightarrow> int" where
  "f2i r = (if r \<ge> 0 then \<lfloor>r\<rfloor> else \<lceil>r\<rceil>)"

text \<open>
  The two nested loops that fill the rectangle of one bar, with the bounds check
  \<open>bx < brailleW && by >= 0\<close> before each \<open>setDot\<close>.
\<close>

definition hist_bar :: "dotState \<Rightarrow> int \<Rightarrow> int \<Rightarrow> int \<Rightarrow> int \<Rightarrow> int \<Rightarrow> Color \<Rightarrow> dotState" where
  "hist_bar st startX actualBarWidth height originY brailleW col =
     foldl (\<lambda>st x.
        foldl (\<lambda>st y.
           let bx = startX + x; by = originY - 1 - y
           in if bx < brailleW \<and> by \<ge> 0 then setDot st bx by col else st)
          st [0..height - 1])
       st [0..actualBarWidth - 1]"

text \<open>
  Step 4 of \<open>Histogram.Draw\<close>, the loop \<open>for i, v := range h.bins\<close> that draws the
  bars into the two maps, which start empty.
\<close>

definition hist_drawBars ::
  "Histogram \<Rightarrow> int \<Rightarrow> int \<Rightarrow> int \<Rightarrow> int \<Rightarrow> int \<Rightarrow> int \<Rightarrow> int \<Rightarrow> dotState" where
  "hist_drawBars h maxBin plotH barWidth actualBarWidth originX originY brailleW =
     foldl (\<lambda>st (i, v).
              let height = f2i ((real_of_int v / real_of_int maxBin) * real_of_int plotH);
                  col = (if alertBin h = i then alertCol h else barColor h);
                  startX = originX + i * barWidth
              in hist_bar st startX actualBarWidth height originY brailleW col)
       (Map.empty, Map.empty) (zip [0..int (length (bins h)) - 1] (bins h))"

text \<open>
  Step 5, the loop \<open>for pt, r := range brailleMap\<close>: each cell of the map is written
  with its rune and its colour of \<open>colorMap\<close> (a missing key reads as the zero colour);
  the canvas area is \<open>dx\<close> cells wide and \<open>dy\<close> cells high and starts at the origin, and
  a \<open>SetCell\<close> outside it fails and is skipped.
\<close>

definition hist_write :: "dotState \<Rightarrow> int \<Rightarrow> int \<Rightarrow> (point \<rightharpoonup> rune \<times> Color)" where
  "hist_write st dx dy =
     (\<lambda>pt. case fst st pt of
              None \<Rightarrow> None
            | Some r \<Rightarrow>
                if 0 \<le> fst pt \<and> fst pt < dx \<and> 0 \<le> snd pt \<and> snd pt < dy
                then Some (r, case snd st pt of None \<Rightarrow> ColorDefault | Some c \<Rightarrow> c)
                else None)"

text \<open>
  \<open>Histogram.Draw\<close> on a canvas whose area is \<open>dx\<close> cells wide and \<open>dy\<close> cells high.
  The result is the histogram after the call (no field is assigned) and what the
  draw writes to the canvas, cell by cell; the error returned is always nil.
\<close>

definition Histogram_Draw ::
  "Histogram \<Rightarrow> int \<Rightarrow> int \<Rightarrow> Histogram \<times> (point \<rightharpoonup> rune \<times> Color)" where
  "Histogram_Draw h dx dy =
     (if length (bins h) = 0 then (h, Map.empty)
      else
        let brailleW = dx * 2;
            brailleH = dy * 4;
            padding = 4;
            plotH = brailleH - padding * 2;
            plotW = brailleW - padding * 2
        in if plotW \<le> 0 \<or> plotH \<le> 0 then (h, Map.empty)
           else
             let maxBin0 = foldl (\<lambda>m v. if v > m then v else m) 0 (bins h);
                 maxBin = (if maxBin0 = 0 then 1 else maxBin0);
                 barCount = int (length (bins h));
                 barWidth = f2i (max 1 (real_of_int plotW / real_of_int barCount));
                 gap = (if barWidth > 2 then 1 else 0);
                 actualBarWidth = barWidth - gap;
                 originY = brailleH - padding;
                 originX = padding
             in (h, hist_write
                      (hist_drawBars h maxBin plotH barWidth actualBarWidth originX originY
                         brailleW)
                      dx dy))"

section \<open>ScatterPlot (widgets/scatter.go): the closure setDot\<close>

text \<open>
  The closure \<open>setDot\<close> of \<open>ScatterPlot.Draw\<close>: the same cell and mask as the
  histogram's, with no colour map (every cell is written in the plot's one colour).
\<close>

definition scatter_setDot :: "(point \<rightharpoonup> rune) \<Rightarrow> int \<Rightarrow> int \<Rightarrow> (point \<rightharpoonup> rune)" where
  "scatter_setDot brailleMap bx by =
     (let cellX = bx sdiv 2;
          cellY = by sdiv 4;
          subX = bx smod 2;
          subY = by smod 4;
          mask = (if subX = 0 \<and> subY = 0 then 0x01
                  else if subX = 0 \<and> subY = 1 then 0x02
                  else if subX = 0 \<and> subY = 2 then 0x04
                  else if subX = 0 \<and> subY = 3 then 0x40
                  else if subX = 1 \<and> subY = 0 then 0x08
                  else if subX = 1 \<and> subY = 1 then 0x10
                  else if subX = 1 \<and> subY = 2 then 0x20
                  else if subX = 1 \<and> subY = 3 then 0x80
                  else 0);
          p = (cellX, cellY)
      in (case brailleMap p of
            Some r \<Rightarrow> brailleMap(p \<mapsto> r OR mask)
          | None \<Rightarrow> brailleMap(p \<mapsto> 0x2800 OR mask)))"

section \<open>The dot grid as the specification describes it\<close>

text \<open>
  A dot \<open>(x, y)\<close> of the virtual grid lies in the terminal cell \<open>(x div 2, y div 4)\<close>,
  at column \<open>x mod 2\<close> and row \<open>y mod 4\<close> of that cell. Unicode numbers the eight dots
  of a braille cell 1, 2, 3, 7 down the left column and 4, 5, 6, 8 down the right
  one, and dot \<open>n\<close> is bit \<open>n - 1\<close> of the glyph's offset from \<open>U+2800\<close>.
\<close>

definition brailleDotNumber :: "int \<Rightarrow> int \<Rightarrow> nat" where
  "brailleDotNumber c r = (if r = 3 then (if c = 0 then 7 else 8) else nat (3 * c + r + 1))"

definition dotBit :: "int \<times> int \<Rightarrow> rune" where
  "dotBit d = push_bit (brailleDotNumber (fst d mod 2) (snd d mod 4) - 1) 1"

definition dotCell :: "int \<times> int \<Rightarrow> point" where
  "dotCell d = (fst d div 2, snd d div 4)"

text \<open>A sequence of \<open>setDot(bx, by, col)\<close> calls, and the state after running it.\<close>

type_synonym dotCall = "int \<times> int \<times> Color"

definition setDots :: "dotState \<Rightarrow> dotCall list \<Rightarrow> dotState" where
  "setDots st calls = foldl (\<lambda>st (bx, by, col). setDot st bx by col) st calls"

definition scatter_setDots :: "(point \<rightharpoonup> rune) \<Rightarrow> (int \<times> int) list \<Rightarrow> (point \<rightharpoonup> rune)" where
  "scatter_setDots m dots = foldl (\<lambda>m (bx, by). scatter_setDot m bx by) m dots"

text \<open>
  The calls of a sequence that target the cell \<open>pt\<close>, the OR of their dots' bits, and
  the colour of the last of them.
\<close>

definition callsAt :: "dotCall list \<Rightarrow> point \<Rightarrow> dotCall list" where
  "callsAt calls pt = filter (\<lambda>(bx, by, col). dotCell (bx, by) = pt) calls"

definition cellMask :: "dotCall list \<Rightarrow> point \<Rightarrow> rune" where
  "cellMask calls pt = foldl (\<lambda>m (bx, by, col). m OR dotBit (bx, by)) 0 (callsAt calls pt)"

definition cellColor :: "dotCall list \<Rightarrow> point \<Rightarrow> Color option" where
  "cellColor calls pt =
     (if callsAt calls pt = [] then None else Some (snd (snd (last (callsAt calls pt)))))"

text \<open>
  The \<open>setDot\<close> calls that the two nested loops of one bar make, in order: for each
  column \<open>x\<close> of the bar and each height \<open>y\<close>, the dot \<open>(startX + x, originY - 1 - y)\<close>
  if it passes the bounds check.
\<close>

definition barDots :: "int \<Rightarrow> int \<Rightarrow> int \<Rightarrow> int \<Rightarrow> int \<Rightarrow> Color \<Rightarrow> dotCall list" where
  "barDots startX actualBarWidth height originY brailleW col =
     concat (map (\<lambda>x. map (\<lambda>y. (startX + x, originY - 1 - y, col))
                       (filter (\<lambda>y. startX + x < brailleW \<and> originY - 1 - y \<ge> 0)
                          [0..height - 1]))
               [0..actualBarWidth - 1])"

text \<open>
  The width of a bar in dots, as \<open>Histogram.Draw\<close> computes it on a canvas \<open>dx\<close> cells
  wide, and the dots that \<open>Histogram.Draw\<close> sets for the bin of index \<open>i\<close> on a canvas of
  \<open>dx\<close> by \<open>dy\<close> cells, with the colour it passes to \<open>setDot\<close>: the cells "painted
  for bin \<open>i\<close>" are the cells of these dots.
\<close>

definition Histogram_barWidth :: "Histogram \<Rightarrow> int \<Rightarrow> int" where
  "Histogram_barWidth h dx =
     f2i (max 1 (real_of_int (dx * 2 - 4 * 2) / real_of_int (int (length (bins h)))))"

definition Histogram_binDots :: "Histogram \<Rightarrow> int \<Rightarrow> int \<Rightarrow> nat \<Rightarrow> dotCall list" where
  "Histogram_binDots h dx dy i =
     (let brailleW = dx * 2;
          brailleH = dy * 4;
          padding = 4;
          plotH = brailleH - padding * 2;
          plotW = brailleW - padding * 2;
          maxBin0 = foldl (\<lambda>m v. if v > m then v else m) 0 (bins h);
          maxBin = (if maxBin0 = 0 then 1 else maxBin0);
          barWidth = Histogram_barWidth h dx;
          gap = (if barWidth > 2 then 1 else 0)
      in if i \<ge> length (bins h) \<or> plotW \<le> 0 \<or> plotH \<le> 0 then []
         else barDots (padding + int i * barWidth) (barWidth - gap)
                (f2i ((real_of_int (bins h ! i) / real_of_int maxBin) * real_of_int plotH))
                (brailleH - padding) brailleW
                (if alertBin h = int i then alertCol h else barColor h))"

text \<open>All the \<open>setDot\<close> calls of one draw, bin after bin.\<close>

definition Histogram_allDots :: "Histogram \<Rightarrow> int \<Rightarrow> int \<Rightarrow> dotCall list" where
  "Histogram_allDots h dx dy = concat (map (Histogram_binDots h dx dy) [0..<length (bins h)])"

text \<open>
  The histogram of \<open>TestHistogram_SetBins\<close>: a new histogram given the bins
  \<open>[1, 2, 3, 4, 5]\<close>, the range 0 to 5, five labels and the alert index 2.
\<close>

definition test_histogram :: Histogram where
  "test_histogram =
     fst (Histogram_SetBins NewHistogram [1, 2, 3, 4, 5] (Finite 0) (Finite 5)
            [''a'', ''b'', ''c'', ''d'', ''e''] 2)"

section \<open>The terminal library, as the widgets call it\<close>

text \<open>
  The widgets draw through termdash: a canvas of terminal cells, a braille canvas
  of dots, and the drawing routines over them. None of it is code of this
  repository, so a draw takes the library as a parameter: \<open>'c\<close> is the state of a
  canvas and \<open>'b\<close> of a braille canvas, and each routine returns the state it leaves
  and the error it reports, if any. Nothing is assumed of the routines.
\<close>

datatype cellOption = FgColor Color | BgColor Color

record ('c, 'b) termdash =
  cvs_Area :: "'c \<Rightarrow> Rectangle"
  cvs_SetAreaCells :: "'c \<Rightarrow> Rectangle \<Rightarrow> char \<Rightarrow> cellOption list \<Rightarrow> 'c \<times> error option"
  draw_Text :: "'c \<Rightarrow> string \<Rightarrow> point \<Rightarrow> cellOption list \<Rightarrow> 'c \<times> error option"
  braille_New :: "Rectangle \<Rightarrow> error + 'b"
  draw_BrailleLine :: "'b \<Rightarrow> point \<Rightarrow> point \<Rightarrow> cellOption list \<Rightarrow> 'b \<times> error option"
  draw_BrailleCircle :: "'b \<Rightarrow> point \<Rightarrow> int \<Rightarrow> cellOption list \<Rightarrow> 'b \<times> error option"
  braille_CopyTo :: "'b \<Rightarrow> 'c \<Rightarrow> 'c \<times> error option"
  strings_ToUpper :: "string \<Rightarrow> string"

text \<open>
  \<open>image.Rect\<close> orders its corners; \<open>Dx\<close> and \<open>Dy\<close> are the width and the height of a
  rectangle.
\<close>

definition image_Rect :: "int \<Rightarrow> int \<Rightarrow> int \<Rightarrow> int \<Rightarrow> Rectangle" where
  "image_Rect x0 y0 x1 y1 =
     \<lparr>rect_Min = (if x0 > x1 then x1 else x0, if y0 > y1 then y1 else y0),
      rect_Max = (if x0 > x1 then x0 else x1, if y0 > y1 then y0 else y1)\<rparr>"

definition rect_Dx :: "Rectangle \<Rightarrow> int" where
  "rect_Dx r = fst (rect_Max r) - fst (rect_Min r)"

definition rect_Dy :: "Rectangle \<Rightarrow> int" where
  "rect_Dy r = snd (rect_Max r) - snd (rect_Min r)"

section \<open>Arithmetic on float64\<close>

text \<open>
  The arithmetic of IEEE 754 on \<open>float64\<close>, as far as the draws use it: NaN and the
  infinities behave as the standard says, and on finite values the operations are
  the exact ones of the real numbers (rounding, overflow and the sign of zero are
  left out). \<open>int(x)\<close> of a value that is not finite is the smallest \<open>int\<close>, as on
  amd64. \<open>math.Min\<close> and \<open>math.Max\<close> test for the infinity first and for NaN second.
\<close>

definition MaxFloat64 :: real where
  "MaxFloat64 = (2 - 1 / 2 ^ 52) * 2 ^ 1023"

definition f64_of_int :: "int \<Rightarrow> float64" where
  "f64_of_int i = Finite (real_of_int i)"

fun f64_to_int :: "float64 \<Rightarrow> int" where
  "f64_to_int (Finite r) = f2i r"
| "f64_to_int a = - (2 ^ 63)"

fun f64_neg :: "float64 \<Rightarrow> float64" where
  "f64_neg NaN = NaN"
| "f64_neg NegInf = PosInf"
| "f64_neg PosInf = NegInf"
| "f64_neg (Finite x) = Finite (- x)"

fun f64_add :: "float64 \<Rightarrow> float64 \<Rightarrow> float64" where
  "f64_add NaN b = NaN"
| "f64_add a NaN = NaN"
| "f64_add PosInf NegInf = NaN"
| "f64_add NegInf PosInf = NaN"
| "f64_add PosInf b = PosInf"
| "f64_add a PosInf = PosInf"
| "f64_add NegInf b = NegInf"
| "f64_add a NegInf = NegInf"
| "f64_add (Finite x) (Finite y) = Finite (x + y)"

definition f64_sub :: "float64 \<Rightarrow> float64 \<Rightarrow> float64" where
  "f64_sub a b = f64_add a (f64_neg b)"

fun f64_sign :: "float64 \<Rightarrow> int" where
  "f64_sign NaN = 0"
| "f64_sign NegInf = - 1"
| "f64_sign PosInf = 1"
| "f64_sign (Finite x) = (if x < 0 then - 1 else if x = 0 then 0 else 1)"

fun f64_mul :: "float64 \<Rightarrow> float64 \<Rightarrow> float64" where
  "f64_mul NaN b = NaN"
| "f64_mul a NaN = NaN"
| "f64_mul (Finite x) (Finite y) = Finite (x * y)"
| "f64_mul a b =
     (if f64_sign a * f64_sign b = 0 then NaN
      else if f64_sign a * f64_sign b > 0 then PosInf else NegInf)"

fun f64_div :: "float64 \<Rightarrow> float64 \<Rightarrow> float64" where
  "f64_div NaN b = NaN"
| "f64_div a NaN = NaN"
| "f64_div (Finite x) (Finite y) =
     (if y = 0 then (if x = 0 then NaN else if x > 0 then PosInf else NegInf)
      else Finite (x / y))"
| "f64_div (Finite x) b = Finite 0"
| "f64_div a (Finite y) = (if f64_sign a * (if y < 0 then - 1 else 1) > 0 then PosInf else NegInf)"
| "f64_div a b = NaN"

fun f64_eq :: "float64 \<Rightarrow> float64 \<Rightarrow> bool" where
  "f64_eq NaN b = False"
| "f64_eq a NaN = False"
| "f64_eq a b = (a = b)"

definition math_Min :: "float64 \<Rightarrow> float64 \<Rightarrow> float64" where
  "math_Min x y =
     (if x = NegInf \<or> y = NegInf then NegInf
      else if x = NaN \<or> y = NaN then NaN
      else if f64_lt x y then x else y)"

definition math_Max :: "float64 \<Rightarrow> float64 \<Rightarrow> float64" where
  "math_Max x y =
     (if x = PosInf \<or> y = PosInf then PosInf
      else if x = NaN \<or> y = NaN then NaN
      else if f64_gt x y then x else y)"

section \<open>Table.Draw\<close>

text \<open>
  \<open>fmt.Sprintf("%d", i)\<close>: the decimal digits of an \<open>int\<close>, with a minus sign for a
  negative one.
\<close>

fun digits :: "nat \<Rightarrow> string" where
  "digits n = (if n < 10 then [char_of (48 + n)] else digits (n div 10) @ [char_of (48 + n mod 10)])"

declare digits.simps [simp del]

definition itoa :: "int \<Rightarrow> string" where
  "itoa i = (if i < 0 then CHR ''-'' # digits (nat (- i)) else digits (nat i))"


text \<open>
  The loop \<open>for _, c := range row\<close> of \<open>drawRow\<close>, from the column offset \<open>curX\<close>; it
  stops at the first error of \<open>draw.Text\<close>.
\<close>

fun drawRow_cells ::
  "('c, 'b) termdash \<Rightarrow> 'c \<Rightarrow> Cell list \<Rightarrow> int \<Rightarrow> Rectangle \<Rightarrow> bool \<Rightarrow> Color \<Rightarrow> int
     \<Rightarrow> 'c \<times> error option" where
  "drawRow_cells td cvs [] colWidth rowAr isHeader textColor curX = (cvs, None)"
| "drawRow_cells td cvs (c # cs) colWidth rowAr isHeader textColor curX =
     (let colAr = image_Rect (curX + 1) (snd (rect_Min rowAr)) (curX + colWidth - 1)
                    (snd (rect_Max rowAr));
          text = (if isHeader then strings_ToUpper td (cell_text c) else cell_text c)
      in case draw_Text td cvs text (rect_Min colAr) [FgColor textColor] of
           (cvs1, Some e) \<Rightarrow> (cvs1, Some e)
         | (cvs1, None) \<Rightarrow>
             drawRow_cells td cvs1 cs colWidth rowAr isHeader textColor (curX + colWidth))"

text \<open>
  \<open>Table.drawRow\<close>. The row counter \<open>*curY\<close> is passed in and returned with the
  canvas; it is advanced only when the whole row was drawn.
\<close>

definition drawRow ::
  "('c, 'b) termdash \<Rightarrow> Table \<Rightarrow> 'c \<Rightarrow> Rectangle \<Rightarrow> Cell list \<Rightarrow> int \<Rightarrow> int \<Rightarrow> bool
     \<Rightarrow> ('c \<times> int) \<times> error option" where
  "drawRow td t cvs cvsAr row colWidth curY isHeader =
     (let rowAr = image_Rect (fst (rect_Min cvsAr)) curY (fst (rect_Max cvsAr)) (curY + 1)
      in if rect_Dy rowAr = 0 then ((cvs, curY), None)
         else
           let fillColor = (if isHeader then headerFillColor (table_opts t)
                            else cellFillColor (table_opts t));
               textColor = (if isHeader then headerTextColor (table_opts t)
                            else cellTextColor (table_opts t))
           in case cvs_SetAreaCells td cvs rowAr CHR '' '' [BgColor fillColor] of
                (cvs1, Some e) \<Rightarrow> ((cvs1, curY), Some e)
              | (cvs1, None) \<Rightarrow>
                  (case drawRow_cells td cvs1 row colWidth rowAr isHeader textColor 0 of
                     (cvs2, Some e) \<Rightarrow> ((cvs2, curY), Some e)
                   | (cvs2, None) \<Rightarrow> ((cvs2, curY + 1), None)))"

text \<open>The loop \<open>for _, row := range t.rows[startIndex:endIndex]\<close>.\<close>

fun drawRows ::
  "('c, 'b) termdash \<Rightarrow> Table \<Rightarrow> 'c \<Rightarrow> Rectangle \<Rightarrow> Cell list list \<Rightarrow> int \<Rightarrow> int
     \<Rightarrow> ('c \<times> int) \<times> error option" where
  "drawRows td t cvs cvsAr [] colWidth curY = ((cvs, curY), None)"
| "drawRows td t cvs cvsAr (row # rs) colWidth curY =
     (case drawRow td t cvs cvsAr row colWidth curY False of
        ((cvs1, curY1), Some e) \<Rightarrow> ((cvs1, curY1), Some e)
      | ((cvs1, curY1), None) \<Rightarrow> drawRows td t cvs1 cvsAr rs colWidth curY1)"

text \<open>
  The bounds of the current page and the reset of \<open>currentPage\<close> when the page lies
  past the rows: the table as this block leaves it, \<open>startIndex\<close> and \<open>endIndex\<close>.
\<close>

definition table_pageSlice :: "Table \<Rightarrow> Table \<times> int \<times> int" where
  "table_pageSlice t =
     (let len = int (length (rows t));
          startIndex = currentPage t * rowsPerPage t;
          endIndex = (if startIndex + rowsPerPage t > len then len
                      else startIndex + rowsPerPage t)
      in if startIndex \<ge> len \<and> len > 0
         then
           (let t1 = t\<lparr>currentPage := numPages t - 1\<rparr>;
                startIndex1 = currentPage t1 * rowsPerPage t1;
                endIndex1 = (if startIndex1 + rowsPerPage t1 > len then len
                             else startIndex1 + rowsPerPage t1)
            in (t1, startIndex1, endIndex1))
         else (t, startIndex, endIndex))"

text \<open>
  The bottom row: the two buttons and the page indicator when there is more than
  one page (the rectangles of the buttons are stored in the table), a cleared row
  otherwise (the error of that \<open>SetAreaCells\<close> is dropped).
\<close>

definition table_pagination ::
  "('c, 'b) termdash \<Rightarrow> Table \<Rightarrow> 'c \<Rightarrow> Rectangle \<Rightarrow> Table \<times> 'c \<times> error option" where
  "table_pagination td t cvs cvsAr =
     (if numPages t > 1 then
        (let prevButtonText = '' < Prev'';
             nextButtonText = ''Next > '';
             prevButtonWidth = int (length prevButtonText);
             nextButtonWidth = int (length nextButtonText);
             paginationAr = image_Rect (fst (rect_Min cvsAr)) (snd (rect_Max cvsAr) - 1)
                              (fst (rect_Max cvsAr)) (snd (rect_Max cvsAr));
             t1 = t\<lparr>prevButtonRect :=
                      image_Rect (fst (rect_Min paginationAr)) (snd (rect_Min paginationAr))
                        (fst (rect_Min paginationAr) + prevButtonWidth)
                        (snd (rect_Max paginationAr))\<rparr>
         in case draw_Text td cvs prevButtonText (rect_Min (prevButtonRect t1))
                   [BgColor ColorBlue, FgColor ColorWhite] of
              (cvs1, Some e) \<Rightarrow> (t1, cvs1, Some e)
            | (cvs1, None) \<Rightarrow>
                (let t2 = t1\<lparr>nextButtonRect :=
                            image_Rect (fst (rect_Max paginationAr) - nextButtonWidth)
                              (snd (rect_Min paginationAr)) (fst (rect_Max paginationAr))
                              (snd (rect_Max paginationAr))\<rparr>
                 in case draw_Text td cvs1 nextButtonText (rect_Min (nextButtonRect t2))
                           [BgColor ColorBlue, FgColor ColorWhite] of
                      (cvs2, Some e) \<Rightarrow> (t2, cvs2, Some e)
                    | (cvs2, None) \<Rightarrow>
                        (let pageIndicator = ''Page '' @ itoa (currentPage t2 + 1) @ '' of ''
                                               @ itoa (numPages t2);
                             textAr = image_Rect (fst (rect_Max (prevButtonRect t2)))
                                        (snd (rect_Max cvsAr) - 1)
                                        (fst (rect_Min (nextButtonRect t2)))
                                        (snd (rect_Max cvsAr))
                         in case draw_Text td cvs2 pageIndicator
                                   ((fst (rect_Min textAr) + fst (rect_Max textAr)) sdiv 2,
                                    snd (rect_Max textAr) - 1)
                                   [BgColor (pageIndicatorBgColor (table_opts t2)),
                                    FgColor (pageIndicatorFgColor (table_opts t2))] of
                              (cvs3, Some e) \<Rightarrow> (t2, cvs3, Some e)
                            | (cvs3, None) \<Rightarrow> (t2, cvs3, None))))
      else
        (let bottomAr = image_Rect (fst (rect_Min cvsAr)) (snd (rect_Max cvsAr) - 1)
                          (fst (rect_Max cvsAr)) (snd (rect_Max cvsAr))
         in case cvs_SetAreaCells td cvs bottomAr CHR '' '' [BgColor ColorDefault] of
              (cvs1, e) \<Rightarrow> (t, cvs1, None)))"

text \<open>
  The rows of the current page and the bottom row. The slice expression
  \<open>t.rows[startIndex:endIndex]\<close> panics when \<open>startIndex\<close> is negative or past
  \<open>endIndex\<close>.
\<close>

definition table_drawPage ::
  "('c, 'b) termdash \<Rightarrow> Table \<Rightarrow> 'c \<Rightarrow> Rectangle \<Rightarrow> int \<Rightarrow> int \<Rightarrow> Table \<times> 'c \<times> error option" where
  "table_drawPage td t cvs cvsAr colWidth curY =
     (case table_pageSlice t of
        (t1, startIndex, endIndex) \<Rightarrow>
          if startIndex < 0 \<or> endIndex < startIndex then (t1, cvs, Some Panic)
          else
            (case drawRows td t1 cvs cvsAr
                    (take (nat (endIndex - startIndex)) (drop (nat startIndex) (rows t1)))
                    colWidth curY of
               ((cvs2, curY2), Some e) \<Rightarrow> (t1, cvs2, Some e)
             | ((cvs2, curY2), None) \<Rightarrow> table_pagination td t1 cvs2 cvsAr))"

text \<open>
  \<open>Table.Draw\<close>: the table, the canvas and the error after the call.
\<close>

definition Table_Draw ::
  "('c, 'b) termdash \<Rightarrow> Table \<Rightarrow> 'c \<Rightarrow> Table \<times> 'c \<times> error option" where
  "Table_Draw td t cvs =
     (let cvsAr = cvs_Area td cvs;
          numCols = (if length (headers t) = 0 \<and> length (rows t) > 0
                     then int (length (hd (rows t))) else int (length (headers t)))
      in if numCols = 0 then (t, cvs, Some TableNothingToDraw)
         else
           (let colWidth = rect_Dx cvsAr sdiv numCols
            in if colWidth = 0 then (t, cvs, Some TableNoSpace)
               else
                 (case (if length (headers t) > 0
                        then drawRow td t cvs cvsAr (headers t) colWidth 0 True
                        else ((cvs, 0), None)) of
                    ((cvs1, curY), Some e) \<Rightarrow> (t, cvs1, Some e)
                  | ((cvs1, curY), None) \<Rightarrow> table_drawPage td t cvs1 cvsAr colWidth curY)))"


section \<open>Funnel.Draw\<close>

text \<open>
  The inner loop \<open>for y := 0; y < segmentHeight; y++\<close> over the scan lines of one
  segment; it stops at the first error of \<open>draw.BrailleLine\<close>. The quotients and
  products of \<open>float64(...)\<close> values are computed in exact arithmetic.
\<close>

fun funnel_lines ::
  "('c, 'b) termdash \<Rightarrow> 'b \<Rightarrow> int list \<Rightarrow> int \<Rightarrow> int \<Rightarrow> int \<Rightarrow> int \<Rightarrow> int \<Rightarrow> Color
     \<Rightarrow> 'b \<times> error option" where
  "funnel_lines td bc [] segmentHeight currentTopWidth currentBottomWidth centerX currentY color
     = (bc, None)"
| "funnel_lines td bc (y # ys) segmentHeight currentTopWidth currentBottomWidth centerX currentY
     color =
     (let lineProportion = real_of_int y / real_of_int segmentHeight;
          lineWidth = f2i (real_of_int currentTopWidth
                           - real_of_int (currentTopWidth - currentBottomWidth) * lineProportion);
          lineStart = (centerX - lineWidth sdiv 2, currentY + y);
          lineEnd = (centerX + lineWidth sdiv 2, currentY + y)
      in case draw_BrailleLine td bc lineStart lineEnd [FgColor color] of
           (bc1, Some e) \<Rightarrow> (bc1, Some (Wrapped ''failed to draw funnel segment line: '' e))
         | (bc1, None) \<Rightarrow>
             funnel_lines td bc1 ys segmentHeight currentTopWidth currentBottomWidth centerX
               currentY color)"

text \<open>
  The loop \<open>for i, value := range f.values\<close>, with \<open>currentY\<close> and \<open>cumulativeValue\<close>
  carried along. \<open>i % len(f.colors)\<close> panics when there is no colour.
\<close>

fun funnel_segments ::
  "('c, 'b) termdash \<Rightarrow> Funnel \<Rightarrow> 'b \<Rightarrow> (int \<times> go_int) list \<Rightarrow> int \<Rightarrow> int \<Rightarrow> int \<Rightarrow> int
     \<Rightarrow> int \<Rightarrow> go_int \<Rightarrow> 'b \<times> error option" where
  "funnel_segments td f bc [] funnelHeight topWidth bottomWidth centerX currentY cumulativeValue
     = (bc, None)"
| "funnel_segments td f bc ((i, v) # rest) funnelHeight topWidth bottomWidth centerX currentY
     cumulativeValue =
     (let segmentHeight0 = f2i (real_of_int (sint v) / real_of_int (sint (funnel_total f))
                                * real_of_int funnelHeight);
          segmentHeight = (if segmentHeight0 < 1 then 1 else segmentHeight0);
          topProportion = real_of_int (sint cumulativeValue) / real_of_int (sint (funnel_total f));
          bottomProportion = real_of_int (sint (cumulativeValue + v))
                             / real_of_int (sint (funnel_total f));
          currentTopWidth = f2i (real_of_int topWidth
                                 - real_of_int (topWidth - bottomWidth) * topProportion);
          currentBottomWidth = f2i (real_of_int topWidth
                                    - real_of_int (topWidth - bottomWidth) * bottomProportion)
      in if length (funnel_colors f) = 0 then (bc, Some Panic)
         else
           let color = funnel_colors f ! nat (i smod int (length (funnel_colors f)))
           in case funnel_lines td bc [0..segmentHeight - 1] segmentHeight currentTopWidth
                     currentBottomWidth centerX currentY color of
                (bc1, Some e) \<Rightarrow> (bc1, Some e)
              | (bc1, None) \<Rightarrow>
                  funnel_segments td f bc1 rest funnelHeight topWidth bottomWidth centerX
                    (currentY + segmentHeight) (cumulativeValue + v))"

text \<open>
  \<open>Funnel.Draw\<close>: the funnel (no field is assigned), the canvas and the error after
  the call. \<open>braille.ColMult\<close> is 2 and \<open>braille.RowMult\<close> is 4.
\<close>

definition Funnel_Draw ::
  "('c, 'b) termdash \<Rightarrow> Funnel \<Rightarrow> 'c \<Rightarrow> Funnel \<times> 'c \<times> error option" where
  "Funnel_Draw td f cvs =
     (if funnel_total f \<le>s 0 then (f, cvs, None)
      else
        case braille_New td (cvs_Area td cvs) of
          Inl err \<Rightarrow> (f, cvs, Some (Wrapped ''braille.New => '' err))
        | Inr bc \<Rightarrow>
            (let ar = cvs_Area td cvs;
                 centerX = fst (rect_Min ar) * 2 + (rect_Dx ar * 2) sdiv 2;
                 funnelHeight = rect_Dy ar * 4 - 2;
                 topWidth = rect_Dx ar * 2 - 2;
                 bottomWidth = 5;
                 currentY = snd (rect_Min ar) * 4 + 1
             in case funnel_segments td f bc
                       (zip [0..int (length (funnel_values f)) - 1] (funnel_values f))
                       funnelHeight topWidth bottomWidth centerX currentY 0 of
                  (bc1, Some e) \<Rightarrow> (f, cvs, Some e)
                | (bc1, None) \<Rightarrow>
                    (case braille_CopyTo td bc1 cvs of (cvs1, e) \<Rightarrow> (f, cvs1, e))))"

section \<open>PieChart.Draw\<close>

text \<open>
  \<open>pieChartMidAndRadii\<close> and, in \<open>radar.go\<close>, \<open>midAndRadii\<close>: the same function twice.
\<close>

definition pieChartMidAndRadii :: "Rectangle \<Rightarrow> point \<times> int \<times> int" where
  "pieChartMidAndRadii ar =
     (let width = rect_Dx ar * 2;
          height = rect_Dy ar * 4;
          radiusX0 = width sdiv 2 - 2;
          radiusY0 = height sdiv 2 - 2;
          radiusX = (if radiusX0 < 1 then 1 else radiusX0);
          radiusY = (if radiusY0 < 1 then 1 else radiusY0);
          mid = (fst (rect_Min ar) * 2 + width sdiv 2, snd (rect_Min ar) * 4 + height sdiv 2)
      in (mid, radiusX, radiusY))"

definition midAndRadii :: "Rectangle \<Rightarrow> point \<times> int \<times> int" where
  "midAndRadii ar =
     (let width = rect_Dx ar * 2;
          height = rect_Dy ar * 4;
          radiusX0 = width sdiv 2 - 2;
          radiusY0 = height sdiv 2 - 2;
          radiusX = (if radiusX0 < 1 then 1 else radiusX0);
          radiusY = (if radiusY0 < 1 then 1 else radiusY0);
          mid = (fst (rect_Min ar) * 2 + width sdiv 2, snd (rect_Min ar) * 4 + height sdiv 2)
      in (mid, radiusX, radiusY))"

text \<open>
  The loop \<open>for angle := currentAngle; angle < endAngle; angle += 0.01\<close>: one radial
  line per step, from the inner to the outer radius. Angles are real numbers here,
  so the loop ends after at most \<open>100 * (endAngle - angle)\<close> steps, rounded up.
\<close>

function pie_lines ::
  "('c, 'b) termdash \<Rightarrow> 'b \<Rightarrow> real \<Rightarrow> real \<Rightarrow> point \<Rightarrow> int \<Rightarrow> int \<Rightarrow> int \<Rightarrow> int \<Rightarrow> Color
     \<Rightarrow> 'b \<times> error option" where
  "pie_lines td bc angle endAngle mid radiusX radiusY innerRadiusX innerRadiusY color =
     (if angle < endAngle then
        (let startX = fst mid + f2i (real_of_int innerRadiusX * cos angle);
             startY = snd mid + f2i (real_of_int innerRadiusY * sin angle);
             endX = fst mid + f2i (real_of_int radiusX * cos angle);
             endY = snd mid + f2i (real_of_int radiusY * sin angle)
         in case draw_BrailleLine td bc (startX, startY) (endX, endY) [FgColor color] of
              (bc1, Some e) \<Rightarrow> (bc1, Some (Wrapped ''failed to draw donut slice line: '' e))
            | (bc1, None) \<Rightarrow>
                pie_lines td bc1 (angle + 1 / 100) endAngle mid radiusX radiusY innerRadiusX
                  innerRadiusY color)
      else (bc, None))"
  by pat_completeness auto
termination
proof (relation "measure (\<lambda>(td, bc, angle, endAngle, rest). nat \<lceil>(endAngle - angle) * 100\<rceil>)")
  show "wf (measure (\<lambda>(td, bc, angle, endAngle, rest). nat \<lceil>(endAngle - angle) * 100\<rceil>))"
    by simp
next
  fix td :: "('c, 'b) termdash" and bc :: 'b and angle endAngle :: real
    and mid :: point and radiusX radiusY innerRadiusX innerRadiusY :: int and color :: Color
    and x xa xb xc xd :: int and xe :: "'b \<times> error option" and x1 :: 'b and y :: "error option"
  assume lt: "angle < endAngle"
  have "(endAngle - (angle + 1 / 100)) * 100 = (endAngle - angle) * 100 - 1"
    by (simp add: algebra_simps)
  then have "\<lceil>(endAngle - (angle + 1 / 100)) * 100\<rceil> = \<lceil>(endAngle - angle) * 100\<rceil> - 1"
    by (simp only: ceiling_diff_one)
  moreover have "0 < \<lceil>(endAngle - angle) * 100\<rceil>"
    using lt by (simp add: ceiling_less_iff[symmetric] less_ceiling_iff)
  ultimately show
    "((td, x1, angle + 1 / 100, endAngle, mid, radiusX, radiusY, innerRadiusX, innerRadiusY, color),
      (td, bc, angle, endAngle, mid, radiusX, radiusY, innerRadiusX, innerRadiusY, color))
     \<in> measure (\<lambda>(td, bc, angle, endAngle, rest). nat \<lceil>(endAngle - angle) * 100\<rceil>)"
    by simp
qed

text \<open>The loop \<open>for i, value := range p.values\<close>, with \<open>currentAngle\<close> carried along.\<close>

fun pie_slices ::
  "('c, 'b) termdash \<Rightarrow> PieChart \<Rightarrow> 'b \<Rightarrow> (int \<times> go_int) list \<Rightarrow> point \<Rightarrow> int \<Rightarrow> int \<Rightarrow> int
     \<Rightarrow> int \<Rightarrow> real \<Rightarrow> 'b \<times> error option" where
  "pie_slices td p bc [] mid radiusX radiusY innerRadiusX innerRadiusY currentAngle = (bc, None)"
| "pie_slices td p bc ((i, v) # rest) mid radiusX radiusY innerRadiusX innerRadiusY currentAngle =
     (let endAngle = currentAngle
                     + real_of_int (sint v) / real_of_int (sint (pie_total p)) * 2 * pi
      in if length (pie_colors p) = 0 then (bc, Some Panic)
         else
           let color = pie_colors p ! nat (i smod int (length (pie_colors p)))
           in case pie_lines td bc currentAngle endAngle mid radiusX radiusY innerRadiusX
                     innerRadiusY color of
                (bc1, Some e) \<Rightarrow> (bc1, Some e)
              | (bc1, None) \<Rightarrow>
                  pie_slices td p bc1 rest mid radiusX radiusY innerRadiusX innerRadiusY endAngle)"

text \<open>\<open>PieChart.Draw\<close>: the chart (no field is assigned), the canvas and the error.\<close>

definition PieChart_Draw ::
  "('c, 'b) termdash \<Rightarrow> PieChart \<Rightarrow> 'c \<Rightarrow> PieChart \<times> 'c \<times> error option" where
  "PieChart_Draw td p cvs =
     (if pie_total p \<le>s 0 then (p, cvs, None)
      else
        case braille_New td (cvs_Area td cvs) of
          Inl err \<Rightarrow> (p, cvs, Some (Wrapped ''braille.New => '' err))
        | Inr bc \<Rightarrow>
            (case pieChartMidAndRadii (cvs_Area td cvs) of
               (mid, radiusX, radiusY) \<Rightarrow>
                 (let innerRadiusX = f2i (real_of_int radiusX * (6 / 10));
                      innerRadiusY = f2i (real_of_int radiusY * (6 / 10))
                  in (case pie_slices td p bc
                             (zip [0..int (length (pie_values p)) - 1] (pie_values p))
                             mid radiusX radiusY innerRadiusX innerRadiusY 0 of
                        (bc1, Some e) \<Rightarrow> (p, cvs, Some e)
                      | (bc1, None) \<Rightarrow>
                          (case braille_CopyTo td bc1 cvs of (cvs1, e) \<Rightarrow> (p, cvs1, e))))))"

section \<open>Radar.Draw\<close>

text \<open>
  The loop \<open>for i, label := range keys\<close> over the sorted labels: the axis of each
  label is drawn and its data point appended to \<open>dataPoints\<close>. The values are the
  caller's \<open>float64\<close>s; the angles are computed from integers and are real numbers.
\<close>

fun radar_axes ::
  "('c, 'b) termdash \<Rightarrow> Radar \<Rightarrow> Values \<Rightarrow> 'b \<Rightarrow> (int \<times> string) list \<Rightarrow> point \<Rightarrow> int \<Rightarrow> int
     \<Rightarrow> real \<Rightarrow> point list \<Rightarrow> ('b \<times> point list) \<times> error option" where
  "radar_axes td r vals bc [] mid radiusX radiusY angleStep dataPoints = ((bc, dataPoints), None)"
| "radar_axes td r vals bc ((i, label) # rest) mid radiusX radiusY angleStep dataPoints =
     (let v = (case fmlookup (Values_Data vals) label of None \<Rightarrow> Finite 0 | Some x \<Rightarrow> x);
          angle = real_of_int i * angleStep - pi / 2;
          endX = fst mid + f2i (real_of_int radiusX * cos angle);
          endY = snd mid + f2i (real_of_int radiusY * sin angle)
      in case draw_BrailleLine td bc mid (endX, endY) [FgColor (axisCellOpts (radar_opts r))] of
           (bc1, Some e) \<Rightarrow> ((bc1, dataPoints), Some (Wrapped ''failed to draw axis: '' e))
         | (bc1, None) \<Rightarrow>
             (let valRx = f64_mul (f64_div v (Values_Max vals)) (f64_of_int radiusX);
                  valRy = f64_mul (f64_div v (Values_Max vals)) (f64_of_int radiusY);
                  pointX = fst mid + f64_to_int (f64_mul valRx (Finite (cos angle)));
                  pointY = snd mid + f64_to_int (f64_mul valRy (Finite (sin angle)))
              in radar_axes td r vals bc1 rest mid radiusX radiusY angleStep
                   (dataPoints @ [(pointX, pointY)])))"

text \<open>The loop \<open>for j := 0; j < len(dataPoints)-1; j++\<close> over the edges of the polygon.\<close>

fun radar_edges ::
  "('c, 'b) termdash \<Rightarrow> Radar \<Rightarrow> 'b \<Rightarrow> point list \<Rightarrow> 'b \<times> error option" where
  "radar_edges td r bc (a # b # ps) =
     (case draw_BrailleLine td bc a b [FgColor (dataCellOpts (radar_opts r))] of
        (bc1, Some e) \<Rightarrow> (bc1, Some (Wrapped ''failed to draw data line: '' e))
      | (bc1, None) \<Rightarrow> radar_edges td r bc1 (b # ps))"
| "radar_edges td r bc ps = (bc, None)"

text \<open>
  \<open>Radar.Draw\<close>: the radar (no field is assigned), the canvas and the error. The
  labels are sorted with \<open>sort.Strings\<close>, byte by byte.
\<close>

definition Radar_Draw ::
  "('c, 'b) termdash \<Rightarrow> Radar \<Rightarrow> 'c \<Rightarrow> Radar \<times> 'c \<times> error option" where
  "Radar_Draw td r cvs =
     (case radar_values r of
        None \<Rightarrow> (r, cvs, None)
      | Some vals \<Rightarrow>
          if fcard (fmdom (Values_Data vals)) < 3 then (r, cvs, None)
          else
            (case braille_New td (cvs_Area td cvs) of
              Inl err \<Rightarrow> (r, cvs, Some (Wrapped ''braille.New => '' err))
            | Inr bc \<Rightarrow>
                (case midAndRadii (cvs_Area td cvs) of
                   (mid, radiusX, radiusY) \<Rightarrow>
                     (case draw_BrailleCircle td bc mid radiusX
                            [FgColor (axisCellOpts (radar_opts r))] of
                       (bc1, Some e) \<Rightarrow>
                         (r, cvs, Some (Wrapped ''failed to draw external circle: '' e))
                     | (bc1, None) \<Rightarrow>
                         (let numAxes = int (fcard (fmdom (Values_Data vals)));
                              angleStep = 2 * pi / real_of_int numAxes;
                              keys = sorted_list_of_fset (fmdom (Values_Data vals))
                          in case radar_axes td r vals bc1 (zip [0..int (length keys) - 1] keys)
                                    mid radiusX radiusY angleStep [] of
                               ((bc2, dataPoints), Some e) \<Rightarrow> (r, cvs, Some e)
                             | ((bc2, dataPoints), None) \<Rightarrow>
                                 (case radar_edges td r bc2 dataPoints of
                                    (bc3, Some e) \<Rightarrow> (r, cvs, Some e)
                                  | (bc3, None) \<Rightarrow>
                                      (case draw_BrailleLine td bc3 (last dataPoints)
                                              (hd dataPoints)
                                              [FgColor (dataCellOpts (radar_opts r))] of
                                         (bc4, Some e) \<Rightarrow>
                                           (r, cvs,
                                            Some (Wrapped ''failed to close data polygon: '' e))
                                       | (bc4, None) \<Rightarrow>
                                           (case braille_CopyTo td bc4 cvs of
                                              (cvs1, e) \<Rightarrow> (r, cvs1, e)))))))))"

section \<open>ScatterPlot.Draw\<close>

record ScatterPoint =
  sp_X :: float64
  sp_Y :: float64

record ScatterPlot =
  points :: "ScatterPoint list"
  xLabel :: string
  yLabel :: string
  scatter_color :: Color

definition NewScatterPlot :: ScatterPlot where
  "NewScatterPlot = \<lparr>points = [], xLabel = [], yLabel = [], scatter_color = ColorNumber 45\<rparr>"

definition ScatterPlot_SetPoints ::
  "ScatterPlot \<Rightarrow> ScatterPoint list \<Rightarrow> string \<Rightarrow> string \<Rightarrow> ScatterPlot \<times> error option" where
  "ScatterPlot_SetPoints s pts xl yl = (s\<lparr>points := pts, xLabel := xl, yLabel := yl\<rparr>, None)"

text \<open>
  \<open>ScatterPlot.Draw\<close> on a canvas \<open>dx\<close> cells wide and \<open>dy\<close> cells high: the plot (no
  field is assigned) and what the draw writes to the canvas, every cell in the
  plot's colour. The error returned is always nil.
\<close>

definition ScatterPlot_Draw ::
  "ScatterPlot \<Rightarrow> int \<Rightarrow> int \<Rightarrow> ScatterPlot \<times> (point \<rightharpoonup> rune \<times> Color)" where
  "ScatterPlot_Draw s dx dy =
     (if length (points s) = 0 then (s, Map.empty)
      else
        let minX0 = foldl (\<lambda>m pt. math_Min m (sp_X pt)) (Finite MaxFloat64) (points s);
            maxX0 = foldl (\<lambda>m pt. math_Max m (sp_X pt)) (Finite (- MaxFloat64)) (points s);
            minY0 = foldl (\<lambda>m pt. math_Min m (sp_Y pt)) (Finite MaxFloat64) (points s);
            maxY0 = foldl (\<lambda>m pt. math_Max m (sp_Y pt)) (Finite (- MaxFloat64)) (points s);
            maxX = (if f64_eq maxX0 minX0 then f64_add maxX0 (Finite 1) else maxX0);
            minX = (if f64_eq maxX0 minX0 then f64_sub minX0 (Finite 1) else minX0);
            maxY = (if f64_eq maxY0 minY0 then f64_add maxY0 (Finite 1) else maxY0);
            minY = (if f64_eq maxY0 minY0 then f64_sub minY0 (Finite 1) else minY0);
            brailleW = dx * 2;
            brailleH = dy * 4;
            padding = 4;
            plotW = brailleW - padding * 2;
            plotH = brailleH - padding * 2
        in if plotW \<le> 0 \<or> plotH \<le> 0 then (s, Map.empty)
           else
             let originX = padding;
                 originY = brailleH - padding;
                 m1 = foldl (\<lambda>m y. scatter_setDot m originX y) Map.empty [padding..originY - 1];
                 m2 = foldl (\<lambda>m x. scatter_setDot m x originY) m1
                        [originX..brailleW - padding - 1];
                 m3 = foldl (\<lambda>m pt.
                        let xNorm = f64_div (f64_sub (sp_X pt) minX) (f64_sub maxX minX);
                            yNorm = f64_div (f64_sub (sp_Y pt) minY) (f64_sub maxY minY);
                            bx = originX + f64_to_int (f64_mul xNorm (f64_of_int plotW));
                            by = originY - f64_to_int (f64_mul yNorm (f64_of_int plotH))
                        in if bx \<ge> 0 \<and> bx < brailleW \<and> by \<ge> 0 \<and> by < brailleH
                           then scatter_setDot m bx by else m)
                      m2 (points s)
             in (s, \<lambda>p. case m3 p of
                           None \<Rightarrow> None
                         | Some r \<Rightarrow>
                             if 0 \<le> fst p \<and> fst p < dx \<and> 0 \<le> snd p \<and> snd p < dy
                             then Some (r, scatter_color s) else None))"

text \<open>
  Two tables that differ at most in the stored rectangles of the buttons, which
  \<open>Draw\<close> writes and never reads.
\<close>

definition same_view :: "Table \<Rightarrow> Table \<Rightarrow> bool" where
  "same_view t t' \<longleftrightarrow>
     headers t' = headers t \<and> rows t' = rows t \<and> table_opts t' = table_opts t
     \<and> currentPage t' = currentPage t \<and> rowsPerPage t' = rowsPerPage t
     \<and> numPages t' = numPages t"

section \<open>A terminal to run the draws on\<close>

text \<open>
  An instance of the library that records the calls it receives: a canvas is the
  list of what was written on it, a braille canvas the list of what was drawn on
  it, the area is 40 by 10 cells, and no call fails.
\<close>

definition recorder :: "(string list, string list) termdash" where
  "recorder =
     \<lparr>cvs_Area = (\<lambda>c. image_Rect 0 0 40 10),
      cvs_SetAreaCells = (\<lambda>c r ch opts. (c @ [''fill''], None)),
      draw_Text = (\<lambda>c s p opts. (c @ [s], None)),
      braille_New = (\<lambda>r. Inr []),
      draw_BrailleLine = (\<lambda>b p q opts. (b @ [''line''], None)),
      draw_BrailleCircle = (\<lambda>b p r opts. (b @ [''circle''], None)),
      braille_CopyTo = (\<lambda>b c. (c @ b, None)),
      strings_ToUpper = (\<lambda>s. s)\<rparr>"

text \<open>
  A table whose current page lies past its rows, the case that \<open>Table.Draw\<close> resets
  ("this can happen if rows are removed"): three rows, two rows per page, page 4.
\<close>

definition stale_table :: Table where
  "stale_table =
     \<lparr>headers = [], rows = [[NewCell ''a''], [NewCell ''b''], [NewCell ''c'']],
      table_opts = newTableOptions, currentPage = 4, rowsPerPage = 2, numPages = 2,
      prevButtonRect = ZR, nextButtonRect = ZR\<rparr>"

section \<open>Funnel and PieChart: validation and the total\<close>

lemma funnel_sum_loop_ok:
  "snd (funnel_sum_loop f vs) = None \<longleftrightarrow> list_all (\<lambda>v. \<not> v <s 0) vs"
  by (induction vs arbitrary: f) auto

lemma funnel_sum_loop_state:
  "list_all (\<lambda>v. \<not> v <s 0) vs \<Longrightarrow>
   fst (funnel_sum_loop f vs) = f\<lparr>funnel_total := funnel_total f + sum_list vs\<rparr>"
  by (induction vs arbitrary: f) (auto simp: add.assoc)

lemma pie_sum_loop_ok:
  "snd (pie_sum_loop p vs) = None \<longleftrightarrow> list_all (\<lambda>v. \<not> v <s 0) vs"
  by (induction vs arbitrary: p) auto

lemma pie_sum_loop_state:
  "list_all (\<lambda>v. \<not> v <s 0) vs \<Longrightarrow>
   fst (pie_sum_loop p vs) = p\<lparr>pie_total := pie_total p + sum_list vs\<rparr>"
  by (induction vs arbitrary: p) (auto simp: add.assoc)

lemma sint_sum_list_wraps:
  fixes vs :: "go_int list"
  shows "sint (sum_list vs) = signed_take_bit 63 (\<Sum>v\<leftarrow>vs. sint v)"
proof (induction vs)
  case Nil
  show ?case by simp
next
  case (Cons v vs)
  have "sint (v + sum_list vs) = signed_take_bit 63 (sint v + sint (sum_list vs))"
    by (simp add: sint_word_ariths)
  also have "\<dots> = signed_take_bit 63 (signed_take_bit 63 (sint v) + signed_take_bit 63 (sint (sum_list vs)))"
    by (simp only: signed_take_bit_add)
  also have "\<dots> = signed_take_bit 63 (signed_take_bit 63 (sint v) + signed_take_bit 63 (\<Sum>v\<leftarrow>vs. sint v))"
    by (simp add: Cons.IH)
  also have "\<dots> = signed_take_bit 63 (sint v + (\<Sum>v\<leftarrow>vs. sint v))"
    by (simp only: signed_take_bit_add)
  finally show ?case by simp
qed

lemma sint_sum_list_exact:
  fixes vs :: "go_int list"
  assumes "\<forall>v\<in>set vs. 0 \<le>s v" and "(\<Sum>v\<leftarrow>vs. sint v) < 2 ^ 63"
  shows "sint (sum_list vs) = (\<Sum>v\<leftarrow>vs. sint v)"
proof -
  have "0 \<le> (\<Sum>v\<leftarrow>vs. sint v)"
    using assms(1) by (intro sum_list_nonneg) (auto simp: word_sle_eq)
  then have "signed_take_bit 63 (\<Sum>v\<leftarrow>vs. sint v) = (\<Sum>v\<leftarrow>vs. sint v)"
    using assms(2) by (intro signed_take_bit_int_eq_self) auto
  then show ?thesis by (simp add: sint_sum_list_wraps)
qed

lemma nonneg_list_all:
  fixes vs :: "go_int list"
  shows "list_all (\<lambda>v. \<not> v <s 0) vs \<longleftrightarrow> (\<forall>v\<in>set vs. 0 \<le>s v)"
  by (auto simp: list_all_iff word_sle_eq word_sless_alt not_less)

lemma Funnel_Values_ok:
  "snd (Funnel_Values f vs cs) = None \<longleftrightarrow> vs \<noteq> [] \<and> cs \<noteq> [] \<and> (\<forall>v\<in>set vs. 0 \<le>s v)"
  by (simp add: Funnel_Values_def funnel_sum_loop_ok nonneg_list_all)

lemma Funnel_Values_state:
  assumes "snd (Funnel_Values f vs cs) = None"
  shows "fst (Funnel_Values f vs cs) =
         \<lparr>funnel_values = vs, funnel_colors = cs, funnel_total = sum_list vs\<rparr>"
proof -
  have ok: "vs \<noteq> []" "cs \<noteq> []" "list_all (\<lambda>v. \<not> v <s 0) vs"
    using assms by (simp_all add: Funnel_Values_ok nonneg_list_all)
  show ?thesis
    using ok by (simp add: Funnel_Values_def funnel_sum_loop_state)
qed

lemma PieChart_Values_ok:
  "snd (PieChart_Values p vs cs) = None \<longleftrightarrow> vs \<noteq> [] \<and> cs \<noteq> [] \<and> (\<forall>v\<in>set vs. 0 \<le>s v)"
  by (simp add: PieChart_Values_def pie_sum_loop_ok nonneg_list_all)

lemma PieChart_Values_state:
  assumes "snd (PieChart_Values p vs cs) = None"
  shows "fst (PieChart_Values p vs cs) =
         \<lparr>pie_values = vs, pie_colors = cs, pie_total = sum_list vs\<rparr>"
proof -
  have ok: "vs \<noteq> []" "cs \<noteq> []" "list_all (\<lambda>v. \<not> v <s 0) vs"
    using assms by (simp_all add: PieChart_Values_ok nonneg_list_all)
  show ?thesis
    using ok by (simp add: PieChart_Values_def pie_sum_loop_state)
qed

text \<open>
  An update rejected for an empty \<open>values\<close> or \<open>colors\<close> slice returns before any
  field is written.
\<close>

lemma Values_empty_rejected_keeps_state:
  "vs = [] \<or> cs = [] \<Longrightarrow> fst (Funnel_Values f vs cs) = f \<and> fst (PieChart_Values p vs cs) = p"
  by (auto simp: Funnel_Values_def PieChart_Values_def)

text \<open>
  C1. Claim: whenever \<open>Funnel.Values\<close> or \<open>PieChart.Values\<close> returns an error, the
  widget's \<open>values\<close>, \<open>colors\<close> and \<open>total\<close> are what they were before the call.
  The code assigns the three fields before it looks at the values: a widget holding
  values \<open>[1, 2]\<close>, one colour and total \<open>3\<close>, given the values \<open>[5, -1]\<close>, returns
  the error for a negative value and is left holding \<open>[5, -1]\<close>, the new colours and
  the partial total \<open>5\<close>.
\<close>

theorem Values_rejected_negative_overwrites_state:
  "Funnel_Values \<lparr>funnel_values = [1, 2], funnel_colors = [ColorRed], funnel_total = 3\<rparr>
       [5, - 1] [ColorBlue]
     = (\<lparr>funnel_values = [5, - 1], funnel_colors = [ColorBlue], funnel_total = 5\<rparr>,
        Some NegativeValue)
   \<and> PieChart_Values \<lparr>pie_values = [1, 2], pie_colors = [ColorRed], pie_total = 3\<rparr>
       [5, - 1] [ColorBlue]
     = (\<lparr>pie_values = [5, - 1], pie_colors = [ColorBlue], pie_total = 5\<rparr>,
        Some NegativeValue)"
  by (simp add: Funnel_Values_def PieChart_Values_def word_sless_alt)

text \<open>
  C2. Claim: a \<open>Values\<close> call of the funnel or the pie chart succeeds if and only if
  the values and the colours are both non-empty and every value is at least 0, and
  on success \<open>total\<close> is the exact integer sum of the values.
  The first half holds. The sum is taken in Go's \<open>int\<close>, which wraps: the values
  \<open>[2^63 - 1, 1]\<close> are accepted and leave \<open>total = - 2^63\<close>, while their sum is
  \<open>2^63\<close>.
\<close>

theorem Values_total_not_exact_sum:
  "snd (Funnel_Values NewFunnel [0x7FFFFFFFFFFFFFFF, 1] [ColorRed]) = None
   \<and> sint (funnel_total (fst (Funnel_Values NewFunnel [0x7FFFFFFFFFFFFFFF, 1] [ColorRed])))
       = - (2 ^ 63)
   \<and> (\<Sum>v\<leftarrow>[0x7FFFFFFFFFFFFFFF, 1 :: go_int]. sint v) = 2 ^ 63
   \<and> snd (PieChart_Values NewPieChart [0x7FFFFFFFFFFFFFFF, 1] [ColorRed]) = None
   \<and> sint (pie_total (fst (PieChart_Values NewPieChart [0x7FFFFFFFFFFFFFFF, 1] [ColorRed])))
       = - (2 ^ 63)"
  by (simp add: Funnel_Values_def NewFunnel_def PieChart_Values_def NewPieChart_def word_sless_alt)

text \<open>
  C2, as the code has it: success if and only if both slices are non-empty and every
  value is at least 0; on success the widget holds the given values and colours,
  and \<open>total\<close> is their sum in 64-bit two's complement arithmetic, which is the
  exact integer sum whenever that sum is below \<open>2^63\<close>.
\<close>

theorem Values_success_iff_total_wrapped:
  "(snd (Funnel_Values f vs cs) = None \<longleftrightarrow> vs \<noteq> [] \<and> cs \<noteq> [] \<and> (\<forall>v\<in>set vs. 0 \<le>s v))
   \<and> (snd (PieChart_Values p vs cs) = None \<longleftrightarrow> vs \<noteq> [] \<and> cs \<noteq> [] \<and> (\<forall>v\<in>set vs. 0 \<le>s v))
   \<and> (snd (Funnel_Values f vs cs) = None \<longrightarrow>
        fst (Funnel_Values f vs cs)
          = \<lparr>funnel_values = vs, funnel_colors = cs, funnel_total = sum_list vs\<rparr>
        \<and> fst (PieChart_Values p vs cs)
          = \<lparr>pie_values = vs, pie_colors = cs, pie_total = sum_list vs\<rparr>
        \<and> sint (sum_list vs) = signed_take_bit 63 (\<Sum>v\<leftarrow>vs. sint v)
        \<and> ((\<Sum>v\<leftarrow>vs. sint v) < 2 ^ 63 \<longrightarrow> sint (sum_list vs) = (\<Sum>v\<leftarrow>vs. sint v)))"
proof (intro conjI impI)
  show "snd (Funnel_Values f vs cs) = None \<longleftrightarrow> vs \<noteq> [] \<and> cs \<noteq> [] \<and> (\<forall>v\<in>set vs. 0 \<le>s v)"
    by (rule Funnel_Values_ok)
  show "snd (PieChart_Values p vs cs) = None \<longleftrightarrow> vs \<noteq> [] \<and> cs \<noteq> [] \<and> (\<forall>v\<in>set vs. 0 \<le>s v)"
    by (rule PieChart_Values_ok)
next
  assume ok: "snd (Funnel_Values f vs cs) = None"
  then show "fst (Funnel_Values f vs cs)
      = \<lparr>funnel_values = vs, funnel_colors = cs, funnel_total = sum_list vs\<rparr>"
    by (rule Funnel_Values_state)
  from ok have "snd (PieChart_Values p vs cs) = None"
    by (simp add: Funnel_Values_ok PieChart_Values_ok)
  then show "fst (PieChart_Values p vs cs)
      = \<lparr>pie_values = vs, pie_colors = cs, pie_total = sum_list vs\<rparr>"
    by (rule PieChart_Values_state)
  show "sint (sum_list vs) = signed_take_bit 63 (\<Sum>v\<leftarrow>vs. sint v)"
    by (rule sint_sum_list_wraps)
  assume "(\<Sum>v\<leftarrow>vs. sint v) < 2 ^ 63"
  moreover from ok have "\<forall>v\<in>set vs. 0 \<le>s v"
    by (simp add: Funnel_Values_ok)
  ultimately show "sint (sum_list vs) = (\<Sum>v\<leftarrow>vs. sint v)"
    by (intro sint_sum_list_exact)
qed

theorem Values_success_iff_total_wrapped_witness:
  "snd (Funnel_Values NewFunnel [3, 4] [ColorRed]) = None
   \<and> fst (Funnel_Values NewFunnel [3, 4] [ColorRed])
       = \<lparr>funnel_values = [3, 4], funnel_colors = [ColorRed], funnel_total = 7\<rparr>
   \<and> fst (PieChart_Values NewPieChart [3, 4] [ColorRed])
       = \<lparr>pie_values = [3, 4], pie_colors = [ColorRed], pie_total = 7\<rparr>
   \<and> sint (sum_list [3, 4 :: go_int]) = 7
   \<and> snd (Funnel_Values NewFunnel [3, - 4] [ColorRed]) \<noteq> None"
  using Values_success_iff_total_wrapped [of NewFunnel "[3, 4]" "[ColorRed]" NewPieChart]
    Values_success_iff_total_wrapped [of NewFunnel "[3, - 4]" "[ColorRed]" NewPieChart]
  by (simp add: word_sle_eq)

section \<open>Radar: validation of an update\<close>

lemma Radar_SetValues_error_keeps_state:
  "snd (Radar_SetValues r vals ropts) \<noteq> None \<Longrightarrow> fst (Radar_SetValues r vals ropts) = r"
  by (auto simp: Radar_SetValues_def radar_validate_def Let_def split: option.splits if_splits)

lemma Radar_SetValues_ok_iff:
  "snd (Radar_SetValues r vals ropts) = None \<longleftrightarrow>
     (\<exists>v. vals = Some v \<and> 3 \<le> fcard (fmdom (Values_Data v))
        \<and> \<not> f64_le (Values_Max v) (Finite 0)
        \<and> fmpred (\<lambda>k x. \<not> f64_lt x (Finite 0) \<and> \<not> f64_gt x (Values_Max v)) (Values_Data v))"
  by (auto simp: Radar_SetValues_def radar_validate_def Let_def split: option.splits if_splits)

lemma f64_not_le_zero: "m \<noteq> NaN \<Longrightarrow> \<not> f64_le m (Finite 0) \<longleftrightarrow> f64_gt m (Finite 0)"
  by (cases m) (auto simp: f64_gt_def)

lemma f64_in_range:
  "x \<noteq> NaN \<Longrightarrow> m \<noteq> NaN \<Longrightarrow>
   (\<not> f64_lt x (Finite 0) \<and> \<not> f64_gt x m) \<longleftrightarrow> (f64_le (Finite 0) x \<and> f64_le x m)"
  by (cases x; cases m) (auto simp: f64_gt_def)

lemma Radar_SetValues_no_NaN:
  assumes "Values_Max v \<noteq> NaN" "\<forall>x \<in> fmran' (Values_Data v). x \<noteq> NaN"
  shows "snd (Radar_SetValues r (Some v) ropts) = None \<longleftrightarrow>
     3 \<le> fcard (fmdom (Values_Data v)) \<and> f64_gt (Values_Max v) (Finite 0)
     \<and> (\<forall>x \<in> fmran' (Values_Data v). f64_le (Finite 0) x \<and> f64_le x (Values_Max v))"
proof -
  have "fmpred (\<lambda>k x. \<not> f64_lt x (Finite 0) \<and> \<not> f64_gt x (Values_Max v)) (Values_Data v)
        \<longleftrightarrow> (\<forall>x \<in> fmran' (Values_Data v). f64_le (Finite 0) x \<and> f64_le x (Values_Max v))"
    using assms by (auto simp: fmpred_iff fmran'_def f64_in_range dest!: fmlookup_ran'_iff[THEN iffD2] intro: fmran'I)
  then show ?thesis
    using assms(1) by (simp add: Radar_SetValues_ok_iff f64_not_le_zero)
qed

text \<open>
  C3. Claim: \<open>Radar.SetValues\<close> succeeds if and only if the map has at least three
  entries, \<open>Max > 0\<close> and every value lies in \<open>[0, Max]\<close>; otherwise it returns an error
  and the stored values are unchanged.
  The guards are \<open>vals.Max <= 0\<close> and \<open>v < 0 || v > vals.Max\<close>, and every comparison
  with a NaN is false: a map holding a NaN value is accepted and stored, and so is a
  NaN maximum. (Without NaN the claim holds: \<open>Radar_SetValues_no_NaN\<close> and
  \<open>Radar_SetValues_error_keeps_state\<close>.)
\<close>

theorem Radar_SetValues_accepts_NaN:
  "Radar_SetValues \<lparr>radar_values = None, radar_opts = newRadarOptions\<rparr>
     (Some \<lparr>Values_Data = fmap_of_list [(''a'', Finite 1), (''b'', NaN), (''c'', Finite 2)],
            Values_Max = Finite 2\<rparr>) []
   = (\<lparr>radar_values =
         Some \<lparr>Values_Data = fmap_of_list [(''a'', Finite 1), (''b'', NaN), (''c'', Finite 2)],
               Values_Max = Finite 2\<rparr>,
       radar_opts = newRadarOptions\<rparr>, None)
   \<and> \<not> (f64_le (Finite 0) NaN \<and> f64_le NaN (Finite 2))
   \<and> snd (Radar_SetValues \<lparr>radar_values = None, radar_opts = newRadarOptions\<rparr>
     (Some \<lparr>Values_Data = fmap_of_list [(''a'', Finite 1), (''b'', Finite 3), (''c'', Finite 2)],
            Values_Max = NaN\<rparr>) []) = None
   \<and> \<not> f64_gt NaN (Finite 0)"
  by code_simp

section \<open>The grid layout: widths and rows\<close>

lemma widgetWidth_cases: "widgetWidth t = 30 \<or> widgetWidth t = 50"
  by (simp add: widgetWidth_def)

lemma rowWidth_simps [simp]:
  "rowWidth [] = 0" "rowWidth (x # xs) = fst x + rowWidth xs"
  "rowWidth (xs @ ys) = rowWidth xs + rowWidth ys"
  by (simp_all add: rowWidth_def)

lemma packInv_init: "packInv [] ([], [], 0)"
  by (simp add: packInv_def)

lemma packInv_step:
  assumes "packInv ws st"
  shows "packInv (ws @ [w]) (packStep st w)"
proof -
  obtain rws cur cw where st: "st = (rws, cur, cw)" by (cases st) auto
  from assms st have
    cw: "cw = rowWidth cur" "cw \<le> 100" and
    cat: "concat rws @ cur = map (\<lambda>w. (widgetWidth (wtyp w), element w)) ws" and
    rs: "\<forall>row\<in>set rws. row \<noteq> [] \<and> rowWidth row \<le> 100" and
    ne: "rws \<noteq> [] \<longrightarrow> cur \<noteq> []" and
    gr: "\<forall>i. Suc i < length (rws @ [cur]) \<longrightarrow>
              rowWidth ((rws @ [cur]) ! i) + fst (hd ((rws @ [cur]) ! Suc i)) > 100"
    by (simp_all add: packInv_def)
  let ?ww = "widgetWidth (wtyp w)"
  have ww: "?ww = 30 \<or> ?ww = 50" by (rule widgetWidth_cases)
  show ?thesis
  proof (cases "cw + ?ww > 100 \<and> length cur > 0")
    case True
    then have step: "packStep st w = (rws @ [cur], [(?ww, element w)], ?ww)"
      by (simp add: packStep_def st)
    have g': "\<forall>i. Suc i < length ((rws @ [cur]) @ [[(?ww, element w)]]) \<longrightarrow>
              rowWidth (((rws @ [cur]) @ [[(?ww, element w)]]) ! i)
              + fst (hd (((rws @ [cur]) @ [[(?ww, element w)]]) ! Suc i)) > 100"
    proof (intro allI impI)
      fix i assume i: "Suc i < length ((rws @ [cur]) @ [[(?ww, element w)]])"
      show "rowWidth (((rws @ [cur]) @ [[(?ww, element w)]]) ! i)
              + fst (hd (((rws @ [cur]) @ [[(?ww, element w)]]) ! Suc i)) > 100"
      proof (cases "Suc i < length (rws @ [cur])")
        case True
        then have "((rws @ [cur]) @ [[(?ww, element w)]]) ! i = (rws @ [cur]) ! i"
          and "((rws @ [cur]) @ [[(?ww, element w)]]) ! Suc i = (rws @ [cur]) ! Suc i"
          by (simp_all only: nth_append_left Suc_lessD)
        then show ?thesis using gr True by simp
      next
        case False
        with i have "i = length rws" by simp
        then show ?thesis using True cw \<open>cw + ?ww > 100 \<and> length cur > 0\<close>
          by (simp add: nth_append)
      qed
    qed
    show ?thesis
      unfolding step packInv_def
      using cw cat rs ne ww True g' by auto
  next
    case False
    then have step: "packStep st w = (rws, cur @ [(?ww, element w)], cw + ?ww)"
      by (auto simp add: packStep_def st)
    have le: "cw + ?ww \<le> 100"
    proof (cases "cur = []")
      case True
      then show ?thesis using cw ww by auto
    next
      case False
      then show ?thesis using \<open>\<not> (cw + ?ww > 100 \<and> length cur > 0)\<close> by simp
    qed
    have g': "\<forall>i. Suc i < length (rws @ [cur @ [(?ww, element w)]]) \<longrightarrow>
              rowWidth ((rws @ [cur @ [(?ww, element w)]]) ! i)
              + fst (hd ((rws @ [cur @ [(?ww, element w)]]) ! Suc i)) > 100"
    proof (intro allI impI)
      fix i assume i: "Suc i < length (rws @ [cur @ [(?ww, element w)]])"
      then have rne: "rws \<noteq> []" by auto
      then have cne: "cur \<noteq> []" using ne by simp
      from i have "Suc i < length (rws @ [cur])" by simp
      then have "rowWidth ((rws @ [cur]) ! i) + fst (hd ((rws @ [cur]) ! Suc i)) > 100"
        using gr by blast
      then show "rowWidth ((rws @ [cur @ [(?ww, element w)]]) ! i)
              + fst (hd ((rws @ [cur @ [(?ww, element w)]]) ! Suc i)) > 100"
        using i cne by (auto simp add: nth_append split: if_splits)
    qed
    show ?thesis
      unfolding step packInv_def
      using cw cat rs ne le g' by auto
  qed
qed

lemma packInv_foldl: "packInv ws (foldl packStep ([], [], 0) ws)"
proof (induction ws rule: rev_induct)
  case Nil
  show ?case by (simp add: packInv_init)
next
  case (snoc w ws)
  then show ?case by (simp add: packInv_step)
qed

lemma packRows_props:
  "concat (packRows ws) = map (\<lambda>w. (widgetWidth (wtyp w), element w)) ws"
  "\<forall>row\<in>set (packRows ws). row \<noteq> [] \<and> rowWidth row \<le> 100"
  "\<forall>i. Suc i < length (packRows ws) \<longrightarrow>
        rowWidth (packRows ws ! i) + fst (hd (packRows ws ! Suc i)) > 100"
proof -
  obtain rws cur cw where st: "foldl packStep ([], [], 0) ws = (rws, cur, cw)"
    by (cases "foldl packStep ([], [], 0) ws") auto
  have inv: "packInv ws (rws, cur, cw)" using packInv_foldl[of ws] st by simp
  have pr: "packRows ws = (if cur \<noteq> [] then rws @ [cur] else rws)"
    by (simp add: packRows_def st)
  have rows_nil: "cur = [] \<Longrightarrow> rws = []" using inv by (auto simp: packInv_def)
  show "concat (packRows ws) = map (\<lambda>w. (widgetWidth (wtyp w), element w)) ws"
    using inv pr by (auto simp: packInv_def)
  show "\<forall>row\<in>set (packRows ws). row \<noteq> [] \<and> rowWidth row \<le> 100"
    using inv pr by (auto simp: packInv_def)
  show "\<forall>i. Suc i < length (packRows ws) \<longrightarrow>
        rowWidth (packRows ws ! i) + fst (hd (packRows ws ! Suc i)) > 100"
  proof (cases "cur = []")
    case True
    then show ?thesis using pr rows_nil by simp
  next
    case False
    then show ?thesis using inv pr by (simp add: packInv_def)
  qed
qed

lemma packRows_five:
  assumes "map (\<lambda>w. widgetWidth (wtyp w)) ws = [50, 30, 50, 30, 50]"
  shows "map (map fst) (packRows ws) = [[50, 30], [50, 30], [50]]"
proof -
  from assms obtain a b c d e where ws: "ws = [a, b, c, d, e]"
    by (auto simp: map_eq_Cons_conv)
  show ?thesis using assms unfolding ws
    by (simp add: packRows_def packStep_def)
qed

text \<open>
  C4. Every widget gets the width 30 if its type is pie, donut, gauge or radar and 50
  otherwise; the rows, read in order, hold the widgets in the order given, each with
  its width; no row is empty and no row's widths add up to more than 100; a row
  ends only where the next widget would have pushed it past 100; and five widgets of
  widths 50, 30, 50, 30, 50 are laid out as \<open>[50, 30]\<close>, \<open>[50, 30]\<close>, \<open>[50]\<close>.
\<close>

theorem packRows_layout:
  "(\<forall>t. widgetWidth t
        = (if t \<in> {''pie'', ''donut'', ''gauge'', ''radar''} then 30 else 50))
   \<and> concat (packRows ws) = map (\<lambda>w. (widgetWidth (wtyp w), element w)) ws
   \<and> (\<forall>row\<in>set (packRows ws). row \<noteq> [] \<and> rowWidth row \<le> 100)
   \<and> (\<forall>i. Suc i < length (packRows ws) \<longrightarrow>
          rowWidth (packRows ws ! i) + fst (hd (packRows ws ! Suc i)) > 100)
   \<and> (map (\<lambda>w. widgetWidth (wtyp w)) ws = [50, 30, 50, 30, 50] \<longrightarrow>
          map (map fst) (packRows ws) = [[50, 30], [50, 30], [50]])"
proof (intro conjI)
  show "\<forall>t. widgetWidth t
        = (if t \<in> {''pie'', ''donut'', ''gauge'', ''radar''} then 30 else 50)"
    by (simp add: widgetWidth_def)
  show "concat (packRows ws) = map (\<lambda>w. (widgetWidth (wtyp w), element w)) ws"
    by (rule packRows_props)
  show "\<forall>row\<in>set (packRows ws). row \<noteq> [] \<and> rowWidth row \<le> 100"
    by (rule packRows_props)
  show "\<forall>i. Suc i < length (packRows ws) \<longrightarrow>
          rowWidth (packRows ws ! i) + fst (hd (packRows ws ! Suc i)) > 100"
    by (rule packRows_props)
  show "map (\<lambda>w. widgetWidth (wtyp w)) ws = [50, 30, 50, 30, 50] \<longrightarrow>
          map (map fst) (packRows ws) = [[50, 30], [50, 30], [50]]"
    by (intro impI packRows_five)
qed

theorem packRows_layout_witness:
  "packRows
     [\<lparr>element = ''t'', wtyp = ''table'', title = ''t''\<rparr>,
      \<lparr>element = ''p'', wtyp = ''pie'', title = ''p''\<rparr>,
      \<lparr>element = ''b'', wtyp = ''bar'', title = ''b''\<rparr>,
      \<lparr>element = ''g'', wtyp = ''gauge'', title = ''g''\<rparr>,
      \<lparr>element = ''l'', wtyp = ''line'', title = ''l''\<rparr>]
   = [[(50, ''t''), (30, ''p'')], [(50, ''b''), (30, ''g'')], [(50, ''l'')]]
   \<and> widgetWidth ''radar'' = 30 \<and> widgetWidth ''table'' = 50
   \<and> rowWidth [(50, ''t''), (30, ''p'')] \<le> 100
   \<and> rowWidth [(50 :: int, ''t''), (30, ''p'')] + fst (hd [(50 :: int, ''b''), (30, ''g'')]) > 100"
  using packRows_layout
    [of "[\<lparr>element = ''t'', wtyp = ''table'', title = ''t''\<rparr>,
      \<lparr>element = ''p'', wtyp = ''pie'', title = ''p''\<rparr>,
      \<lparr>element = ''b'', wtyp = ''bar'', title = ''b''\<rparr>,
      \<lparr>element = ''g'', wtyp = ''gauge'', title = ''g''\<rparr>,
      \<lparr>element = ''l'', wtyp = ''line'', title = ''l''\<rparr>]"]
  by (simp add: packRows_def packStep_def widgetWidth_def)

section \<open>Table: construction and pagination\<close>

lemma NewTable_Inr_iff:
  "(\<exists>t. NewTable hs rs topts = Inr t) \<longleftrightarrow> (\<forall>r\<in>set rs. length r = table_numCols hs rs)"
proof -
  have "(\<exists>t. NewTable hs rs topts = Inr t) \<longleftrightarrow>
        find (\<lambda>row. length row \<noteq> table_numCols hs rs) rs = None"
    by (simp add: NewTable_def Let_def split: option.splits)
  also have "\<dots> \<longleftrightarrow> (\<forall>r\<in>set rs. length r = table_numCols hs rs)"
    by (auto simp add: find_None_iff)
  finally show ?thesis .
qed

lemma NewTable_fields:
  assumes "NewTable hs rs topts = Inr t"
  shows "headers t = hs" "rows t = rs" "currentPage t = 0"
    "numPages t = table_numPages (int (length rs)) (rowsPerPage t)"
  using assms by (auto simp: NewTable_def Let_def split: option.splits)

text \<open>
  C5. \<open>NewTable\<close> succeeds if and only if every row has as many cells as the header
  when the header is not empty, and as many as the first row otherwise.
\<close>

theorem NewTable_succeeds_iff:
  "(\<exists>t. NewTable hs rs topts = Inr t) \<longleftrightarrow>
     (if hs \<noteq> [] then (\<forall>r\<in>set rs. length r = length hs)
      else (\<forall>r\<in>set rs. length r = length (hd rs)))"
proof -
  have "(\<forall>r\<in>set rs. length r = table_numCols hs rs) \<longleftrightarrow>
      (if hs \<noteq> [] then (\<forall>r\<in>set rs. length r = length hs)
       else (\<forall>r\<in>set rs. length r = length (hd rs)))"
    by (cases rs) (simp_all add: table_numCols_def)
  then show ?thesis by (simp only: NewTable_Inr_iff)
qed

theorem NewTable_succeeds_iff_witness:
  "(\<exists>t. NewTable [NewCell ''id'', NewCell ''name'']
          [[NewCell ''1'', NewCell ''ann''], [NewCell ''2'', NewCell ''bob'']] [] = Inr t)
   \<and> \<not> (\<exists>t. NewTable [NewCell ''id'', NewCell ''name'']
          [[NewCell ''1'', NewCell ''ann''], [NewCell ''2'']] [] = Inr t)
   \<and> (\<exists>t. NewTable [] [[NewCell ''1''], [NewCell ''2'']] [] = Inr t)
   \<and> \<not> (\<exists>t. NewTable [] [[NewCell ''1''], [NewCell ''2'', NewCell ''bob'']] [] = Inr t)"
  using
    NewTable_succeeds_iff [of "[NewCell ''id'', NewCell ''name'']"
      "[[NewCell ''1'', NewCell ''ann''], [NewCell ''2'', NewCell ''bob'']]" "[]"]
    NewTable_succeeds_iff [of "[NewCell ''id'', NewCell ''name'']"
      "[[NewCell ''1'', NewCell ''ann''], [NewCell ''2'']]" "[]"]
    NewTable_succeeds_iff [of "[]" "[[NewCell ''1''], [NewCell ''2'']]" "[]"]
    NewTable_succeeds_iff [of "[]" "[[NewCell ''1''], [NewCell ''2'', NewCell ''bob'']]" "[]"]
  by simp

text \<open>
  C6. A table of 12 rows with 5 rows per page has 3 pages and starts on page 0; the
  next-page action moves it from page 0 to page 1; from the last page (page 2) the
  next-page action changes nothing; from page 0 the previous-page action changes
  nothing.
\<close>

theorem Table_pagination_12_rows:
  assumes "NewTable hs rs topts = Inr t" and "rowsPerPage t = 5" and "length rs = 12"
  shows "numPages t = 3 \<and> numPages t = \<lceil>real (length rs) / real_of_int (rowsPerPage t)\<rceil>
     \<and> currentPage t = 0
     \<and> currentPage (nextPage t) = 1
     \<and> currentPage (nextPage (nextPage t)) = numPages t - 1
     \<and> nextPage (nextPage (nextPage t)) = nextPage (nextPage t)
     \<and> prevPage t = t"
proof -
  from assms have np: "numPages t = 3" and cp: "currentPage t = 0"
    by (simp_all add: NewTable_fields table_numPages_def)
  show ?thesis using np cp assms(2,3) by (simp add: nextPage_def prevPage_def)
qed

theorem Table_pagination_12_rows_witness:
  "\<exists>t. NewTable [] (replicate 12 [NewCell ''x'']) [] = Inr t
     \<and> rowsPerPage t = 5 \<and> length (replicate 12 [NewCell ''x'']) = 12
     \<and> numPages t = 3 \<and> currentPage t = 0
     \<and> currentPage (nextPage t) = 1
     \<and> currentPage (nextPage (nextPage t)) = 2
     \<and> nextPage (nextPage (nextPage t)) = nextPage (nextPage t)
     \<and> prevPage t = t"
proof -
  have "\<exists>t. NewTable [] (replicate 12 [NewCell ''x'']) [] = Inr t"
    by (simp add: NewTable_Inr_iff table_numCols_def eval_nat_numeral)
  then obtain t where t: "NewTable [] (replicate 12 [NewCell ''x'']) [] = Inr t" ..
  then have rpp: "rowsPerPage t = 5"
    by (auto simp: NewTable_def Let_def newTableOptions_def split: option.splits)
  have len: "length (replicate 12 [NewCell ''x'']) = 12" by simp
  from Table_pagination_12_rows [OF t rpp len] t rpp len show ?thesis
    by (intro exI [of _ t]) simp
qed

section \<open>The dot grid: masks and colours\<close>

lemma sdiv_nonneg: "0 \<le> a \<Longrightarrow> 0 < b \<Longrightarrow> (a::int) sdiv b = a div b"
  by (auto simp: signed_divide_int_def sgn_if)

lemma smod_nonneg: "0 \<le> a \<Longrightarrow> 0 < b \<Longrightarrow> (a::int) smod b = a mod b"
  by (auto simp: signed_modulo_int_def sgn_if)

lemma mask_dotBit:
  assumes "0 \<le> bx" "0 \<le> by"
  shows "(if bx mod 2 = 0 \<and> by mod 4 = 0 then 0x01
          else if bx mod 2 = 0 \<and> by mod 4 = 1 then 0x02
          else if bx mod 2 = 0 \<and> by mod 4 = 2 then 0x04
          else if bx mod 2 = 0 \<and> by mod 4 = 3 then 0x40
          else if bx mod 2 = 1 \<and> by mod 4 = 0 then 0x08
          else if bx mod 2 = 1 \<and> by mod 4 = 1 then 0x10
          else if bx mod 2 = 1 \<and> by mod 4 = 2 then 0x20
          else if bx mod 2 = 1 \<and> by mod 4 = 3 then 0x80
          else 0) = dotBit (bx, by)"
proof -
  have x: "bx mod 2 = 0 \<or> bx mod 2 = 1" by presburger
  have y: "by mod 4 = 0 \<or> by mod 4 = 1 \<or> by mod 4 = 2 \<or> by mod 4 = 3" by presburger
  show ?thesis using x y
    by (auto simp: dotBit_def brailleDotNumber_def)
qed

lemma setDot_nonneg:
  assumes "0 \<le> bx" "0 \<le> by"
  shows "setDot (bm, cm) bx by col =
     (bm(dotCell (bx, by) \<mapsto>
          (case bm (dotCell (bx, by)) of Some r \<Rightarrow> r OR dotBit (bx, by)
           | None \<Rightarrow> 0x2800 OR dotBit (bx, by))),
      cm(dotCell (bx, by) \<mapsto> col))"
proof -
  have d: "bx sdiv 2 = bx div 2" "by sdiv 4 = by div 4"
    "bx smod 2 = bx mod 2" "by smod 4 = by mod 4"
    using assms by (simp_all add: sdiv_nonneg smod_nonneg)
  show ?thesis
    unfolding setDot_def Let_def d mask_dotBit[OF assms] dotCell_def
    by (simp split: option.splits)
qed

lemma scatter_setDot_fst:
  "scatter_setDot bm bx by = fst (setDot (bm, cm) bx by col)"
  by (simp add: scatter_setDot_def setDot_def Let_def split: option.splits)

lemma scatter_setDots_fst:
  "scatter_setDots bm dots = fst (setDots (bm, cm) (map (\<lambda>(bx, by). (bx, by, col)) dots))"
proof (induction dots arbitrary: bm cm)
  case Nil
  show ?case by (simp add: scatter_setDots_def setDots_def)
next
  case (Cons d dots)
  obtain bx "by" where d: "d = (bx, by)" by (cases d)
  obtain bm' cm' where st: "setDot (bm, cm) bx by col = (bm', cm')"
    by (cases "setDot (bm, cm) bx by col")
  have bm': "scatter_setDot bm bx by = bm'"
    using scatter_setDot_fst[of bm bx "by" cm col] st by simp
  show ?case
    using Cons.IH[of bm' cm'] by (simp add: scatter_setDots_def setDots_def d st bm')
qed

lemma callsAt_snoc:
  "callsAt (calls @ [(bx, by, col)]) pt =
     (if dotCell (bx, by) = pt then callsAt calls pt @ [(bx, by, col)] else callsAt calls pt)"
  by (simp add: callsAt_def)

lemma setDots_snoc:
  "setDots st (calls @ [(bx, by, col)]) = setDot (setDots st calls) bx by col"
  by (simp add: setDots_def)

lemma setDots_maps:
  assumes "\<forall>(bx, by, col)\<in>set calls. 0 \<le> bx \<and> 0 \<le> by"
  shows "fst (setDots (Map.empty, Map.empty) calls) pt
           = (if callsAt calls pt = [] then None else Some (0x2800 OR cellMask calls pt))
       \<and> snd (setDots (Map.empty, Map.empty) calls) pt = cellColor calls pt"
  using assms
proof (induction calls rule: rev_induct)
  case Nil
  show ?case by (simp add: setDots_def callsAt_def cellColor_def)
next
  case (snoc c calls)
  obtain bx "by" col where c: "c = (bx, by, col)" by (cases c)
  from snoc.prems c have nn: "0 \<le> bx" "0 \<le> by" by auto
  from snoc.prems have "\<forall>(bx, by, col)\<in>set calls. 0 \<le> bx \<and> 0 \<le> by" by auto
  then have ih: "fst (setDots (Map.empty, Map.empty) calls) pt
           = (if callsAt calls pt = [] then None else Some (0x2800 OR cellMask calls pt))"
       "snd (setDots (Map.empty, Map.empty) calls) pt = cellColor calls pt"
    using snoc.IH by simp_all
  obtain bm cm where st: "setDots (Map.empty, Map.empty) calls = (bm, cm)"
    by (cases "setDots (Map.empty, Map.empty) calls")
  have step: "setDots (Map.empty, Map.empty) (calls @ [(bx, by, col)]) =
     (bm(dotCell (bx, by) \<mapsto>
          (case bm (dotCell (bx, by)) of Some r \<Rightarrow> r OR dotBit (bx, by)
           | None \<Rightarrow> 0x2800 OR dotBit (bx, by))),
      cm(dotCell (bx, by) \<mapsto> col))"
    by (simp add: setDots_snoc st setDot_nonneg[OF nn])
  show ?case
  proof (cases "dotCell (bx, by) = pt")
    case True
    then show ?thesis
      using ih st unfolding c step
      by (auto simp: callsAt_snoc cellMask_def cellColor_def word_bw_assocs split: option.splits)
  next
    case False
    then show ?thesis
      using ih st unfolding c step
      by (auto simp: callsAt_snoc cellMask_def cellColor_def)
  qed
qed

lemma dotBit_le: "dotBit d AND 0xFF = dotBit d"
proof -
  have x: "fst d mod 2 = 0 \<or> fst d mod 2 = 1" by presburger
  have y: "snd d mod 4 = 0 \<or> snd d mod 4 = 1 \<or> snd d mod 4 = 2 \<or> snd d mod 4 = 3" by presburger
  show ?thesis using x y
    by (auto simp: dotBit_def brailleDotNumber_def)
qed

lemma foldl_mask_low:
  "m AND 0xFF = m \<Longrightarrow>
   foldl (\<lambda>m (bx, by, col). m OR dotBit (bx, by)) m cs AND 0xFF
     = foldl (\<lambda>m (bx, by, col). m OR dotBit (bx, by)) (m :: rune) (cs :: dotCall list)"
proof (induction cs arbitrary: m)
  case Nil
  then show ?case by simp
next
  case (Cons c cs)
  obtain bx "by" col where c: "c = (bx, by, col)" by (cases c)
  have "(m OR dotBit (bx, by)) AND 0xFF = m OR dotBit (bx, by)"
    using Cons.prems dotBit_le[of "(bx, by)"] by (simp add: bit.conj_disj_distrib2)
  then show ?case using Cons.IH by (simp add: c)
qed

lemma cellMask_low: "cellMask calls pt AND 0xFF = cellMask calls pt"
  unfolding cellMask_def by (rule foldl_mask_low) simp

lemma glyph_low: "(0x2800 OR cellMask calls pt) AND 0xFF = cellMask calls pt"
proof -
  have "(0x2800 OR cellMask calls pt) AND 0xFF = (0x2800 AND 0xFF) OR (cellMask calls pt AND 0xFF)"
    by (simp add: bit.conj_disj_distrib2)
  also have "\<dots> = cellMask calls pt" by (simp add: cellMask_low)
  finally show ?thesis .
qed

text \<open>
  C7. After any sequence of \<open>setDot\<close> calls of one draw (dot coordinates are never
  negative there), a cell no call targeted is in neither map; for every other cell
  the rune is \<open>U+2800\<close> OR the bits of all the dots set in that cell, so that its low
  eight bits are exactly the OR of those bits, and the colour is the colour of the
  last call that targeted the cell. The scatter plot's \<open>setDot\<close> builds the same runes.
\<close>

theorem setDot_mask_is_or_and_last_color_wins:
  assumes "\<forall>(bx, by, col)\<in>set calls. 0 \<le> bx \<and> 0 \<le> by"
  shows "fst (setDots (Map.empty, Map.empty) calls) pt
           = (if callsAt calls pt = [] then None else Some (0x2800 OR cellMask calls pt))
       \<and> (0x2800 OR cellMask calls pt) AND 0xFF = cellMask calls pt
       \<and> snd (setDots (Map.empty, Map.empty) calls) pt = cellColor calls pt
       \<and> scatter_setDots Map.empty (map (\<lambda>(bx, by, col). (bx, by)) calls) pt
           = fst (setDots (Map.empty, Map.empty) calls) pt"
proof -
  have mm: "map (\<lambda>(bx, by). (bx, by, ColorDefault)) (map (\<lambda>(bx, by, col). (bx, by)) calls)
        = map (\<lambda>(bx, by, col). (bx, by, ColorDefault)) calls"
    by (simp add: case_prod_beta)
  have sc: "scatter_setDots Map.empty (map (\<lambda>(bx, by, col). (bx, by)) calls)
      = fst (setDots (Map.empty, Map.empty) (map (\<lambda>(bx, by, col). (bx, by, ColorDefault)) calls))"
    unfolding mm [symmetric] by (rule scatter_setDots_fst)
  let ?calls' = "map (\<lambda>(bx, by, col). (bx, by, ColorDefault)) calls"
  have nn': "\<forall>(bx, by, col)\<in>set ?calls'. 0 \<le> bx \<and> 0 \<le> by"
    using assms by auto
  have ca: "callsAt ?calls' pt = map (\<lambda>(bx, by, col). (bx, by, ColorDefault)) (callsAt calls pt)"
    unfolding callsAt_def by (induction calls) auto
  have fm: "foldl (\<lambda>m (bx, by, col). m OR dotBit (bx, by)) m
              (map (\<lambda>(bx, by, col). (bx, by, ColorDefault)) cs)
          = foldl (\<lambda>m (bx, by, col). m OR dotBit (bx, by)) m cs" for m and cs :: "dotCall list"
    by (induction cs arbitrary: m) (simp_all add: case_prod_beta)
  have cm: "cellMask ?calls' pt = cellMask calls pt"
    by (simp add: cellMask_def ca fm)
  have "fst (setDots (Map.empty, Map.empty) ?calls') pt
      = fst (setDots (Map.empty, Map.empty) calls) pt"
    using setDots_maps [OF nn', of pt] setDots_maps [OF assms, of pt]
    by (simp add: ca cm)
  then show ?thesis
    using setDots_maps [OF assms, of pt] by (simp add: glyph_low sc)
qed

theorem setDot_mask_is_or_and_last_color_wins_witness:
  "fst (setDots (Map.empty, Map.empty)
         [(6, 15, ColorRed), (7, 15, ColorBlue), (6, 14, ColorRed), (9, 0, ColorWhite)]) (3, 3)
     = Some 0x28C4
   \<and> snd (setDots (Map.empty, Map.empty)
         [(6, 15, ColorRed), (7, 15, ColorBlue), (6, 14, ColorRed), (9, 0, ColorWhite)]) (3, 3)
     = Some ColorRed
   \<and> fst (setDots (Map.empty, Map.empty)
         [(6, 15, ColorRed), (7, 15, ColorBlue), (6, 14, ColorRed), (9, 0, ColorWhite)]) (0, 0)
     = None
   \<and> scatter_setDots Map.empty [(6, 15), (7, 15), (6, 14), (9, 0)] (3, 3) = Some 0x28C4"
proof -
  have h: "\<forall>(bx, by, col)\<in>set
      [(6, 15, ColorRed), (7, 15, ColorBlue), (6, 14, ColorRed), (9 :: int, 0 :: int, ColorWhite)].
        0 \<le> bx \<and> 0 \<le> by"
    by simp
  show ?thesis
    using setDot_mask_is_or_and_last_color_wins [OF h, of "(3, 3)"]
      setDot_mask_is_or_and_last_color_wins [OF h, of "(0, 0)"]
    by (simp add: callsAt_def cellMask_def cellColor_def dotCell_def dotBit_def
        brailleDotNumber_def)
qed

section \<open>Histogram: what a draw paints\<close>

lemma setDots_append: "setDots st (xs @ ys) = setDots (setDots st xs) ys"
  by (simp add: setDots_def)

lemma foldl_setDots_concat:
  "foldl (\<lambda>st i. setDots st (D i)) st is = setDots st (concat (map D is))"
  by (induction "is" arbitrary: st) (simp_all add: setDots_append, simp add: setDots_def)

lemma inner_loop_setDots:
  "foldl (\<lambda>st y. let bx = sx; by = oy - 1 - y
                   in if bx < bw \<and> by \<ge> 0 then setDot st bx by col else st) st ys
   = setDots st (map (\<lambda>y. (sx, oy - 1 - y, col)) (filter (\<lambda>y. sx < bw \<and> oy - 1 - y \<ge> 0) ys))"
  by (induction ys arbitrary: st) (simp_all add: setDots_def Let_def)

lemma hist_bar_setDots:
  "hist_bar st startX abw height originY brailleW col
     = setDots st (barDots startX abw height originY brailleW col)"
  unfolding hist_bar_def barDots_def inner_loop_setDots
  by (rule foldl_setDots_concat)

lemma upto_map_int: "[0..int n - 1] = map int [0..<n]"
proof (induction n)
  case 0
  show ?case by simp
next
  case (Suc n)
  have "[0..int (Suc n) - 1] = [0..int n - 1] @ [int n]"
    using upto_rec2[of 0 "int n"] by simp
  then show ?case using Suc by simp
qed

lemma zip_upto_enum: "zip [0..int (length bs) - 1] bs = map (\<lambda>i. (int i, bs ! i)) [0..<length bs]"
  unfolding upto_map_int
  by (rule nth_equalityI) simp_all



lemma hist_drawBars_setDots:
  "hist_drawBars h maxBin plotH barWidth abw originX originY brailleW =
     setDots (Map.empty, Map.empty)
       (concat (map (\<lambda>i. barDots (originX + int i * barWidth) abw
                            (f2i ((real_of_int (bins h ! i) / real_of_int maxBin) * real_of_int plotH))
                            originY brailleW
                            (if alertBin h = int i then alertCol h else barColor h))
                  [0..<length (bins h)]))"
  unfolding hist_drawBars_def Let_def zip_upto_enum foldl_map hist_bar_setDots
  by (simp add: foldl_setDots_concat)

lemma Histogram_Draw_setDots:
  assumes "bins h \<noteq> []" "dx * 2 - 4 * 2 > 0" "dy * 4 - 4 * 2 > 0"
  shows "snd (Histogram_Draw h dx dy) =
     hist_write (setDots (Map.empty, Map.empty) (Histogram_allDots h dx dy)) dx dy"
proof -
  have m: "map (Histogram_binDots h dx dy) [0..<length (bins h)] =
      map (\<lambda>i. barDots (4 + int i * Histogram_barWidth h dx)
                 (Histogram_barWidth h dx - (if Histogram_barWidth h dx > 2 then 1 else 0))
                 (f2i ((real_of_int (bins h ! i) /
                        real_of_int (if foldl (\<lambda>m v. if v > m then v else m) 0 (bins h) = 0 then 1
                                     else foldl (\<lambda>m v. if v > m then v else m) 0 (bins h)))
                       * real_of_int (dy * 4 - 4 * 2)))
                 (dy * 4 - 4) (dx * 2)
                 (if alertBin h = int i then alertCol h else barColor h))
          [0..<length (bins h)]"
    using assms(2,3) by (intro map_cong refl) (simp add: Histogram_binDots_def Let_def)
  have "snd (Histogram_Draw h dx dy) =
      hist_write
        (hist_drawBars h
           (if foldl (\<lambda>m v. if v > m then v else m) 0 (bins h) = 0 then 1
            else foldl (\<lambda>m v. if v > m then v else m) 0 (bins h))
           (dy * 4 - 4 * 2) (Histogram_barWidth h dx)
           (Histogram_barWidth h dx - (if Histogram_barWidth h dx > 2 then 1 else 0))
           4 (dy * 4 - 4) (dx * 2))
        dx dy"
    using assms unfolding Histogram_Draw_def Let_def Histogram_barWidth_def
    by (simp del: of_int_diff of_int_mult)
  then show ?thesis
    unfolding hist_drawBars_setDots Histogram_allDots_def m .
qed


lemma Histogram_barWidth_pos: "1 \<le> Histogram_barWidth h dx"
  by (simp add: Histogram_barWidth_def f2i_def le_floor_iff)

lemma binDots_geometry:
  assumes "(bx, by, col) \<in> set (Histogram_binDots h dx dy i)"
  shows "i < length (bins h)"
    and "4 + int i * Histogram_barWidth h dx \<le> bx"
    and "bx \<le> 4 + int i * Histogram_barWidth h dx + Histogram_barWidth h dx
               - (if Histogram_barWidth h dx > 2 then 1 else 0) - 1"
    and "bx < dx * 2" and "0 \<le> by" and "by < dy * 4"
    and "col = (if alertBin h = int i then alertCol h else barColor h)"
  using assms
  by (auto simp: Histogram_binDots_def Let_def barDots_def split: if_splits)

lemma binDots_nonneg:
  assumes "(bx, by, col) \<in> set (Histogram_binDots h dx dy i)"
  shows "0 \<le> bx \<and> 0 \<le> by"
proof -
  have "0 \<le> int i * Histogram_barWidth h dx"
    using Histogram_barWidth_pos[of h dx] by simp
  then show ?thesis using binDots_geometry(2,5)[OF assms] by linarith
qed

lemma allDots_iff:
  "c \<in> set (Histogram_allDots h dx dy) \<longleftrightarrow>
     (\<exists>i < length (bins h). c \<in> set (Histogram_binDots h dx dy i))"
  by (auto simp: Histogram_allDots_def)

lemma bars_apart:
  assumes bw: "2 \<le> Histogram_barWidth h dx"
    and di: "(bx, by, col) \<in> set (Histogram_binDots h dx dy i)"
    and dj: "(bx', by', col') \<in> set (Histogram_binDots h dx dy j)"
    and lt: "i < j"
  shows "bx div 2 < bx' div 2"
proof -
  let ?w = "Histogram_barWidth h dx"
  have "int (Suc i) * ?w \<le> int j * ?w"
    using lt bw by (intro mult_right_mono) auto
  then have j: "int i * ?w + ?w \<le> int j * ?w"
    by (simp add: algebra_simps)
  have up: "bx \<le> 4 + int i * ?w + ?w - (if ?w > 2 then 1 else 0) - 1"
    by (rule binDots_geometry(3)[OF di])
  have lo: "4 + int j * ?w \<le> bx'"
    by (rule binDots_geometry(2)[OF dj])
  show ?thesis
  proof (cases "?w > 2")
    case True
    then have "bx + 2 \<le> bx'" using up lo j by simp
    then show ?thesis by presburger
  next
    case False
    then have w2: "?w = 2" using bw by simp
    have "bx \<le> 2 * int i + 5" using up w2 by simp
    moreover have "2 * int i + 6 \<le> bx'" using lo j w2 by simp
    ultimately show ?thesis by presburger
  qed
qed

lemma same_cell_same_bin:
  assumes bw: "2 \<le> Histogram_barWidth h dx"
    and di: "(bx, by, col) \<in> set (Histogram_binDots h dx dy i)"
    and dj: "(bx', by', col') \<in> set (Histogram_binDots h dx dy j)"
    and eq: "dotCell (bx', by') = dotCell (bx, by)"
  shows "j = i"
proof (rule ccontr)
  assume "j \<noteq> i"
  then consider "i < j" | "j < i" by linarith
  then show False
  proof cases
    case 1
    from bars_apart[OF bw di dj 1] eq show False by (simp add: dotCell_def)
  next
    case 2
    from bars_apart[OF bw dj di 2] eq show False by (simp add: dotCell_def)
  qed
qed

lemma Histogram_Draw_cell:
  assumes bw: "2 \<le> Histogram_barWidth h dx"
    and di: "(bx, by, col) \<in> set (Histogram_binDots h dx dy i)"
  shows "snd (Histogram_Draw h dx dy) (dotCell (bx, by)) =
     Some (0x2800 OR cellMask (Histogram_allDots h dx dy) (dotCell (bx, by)),
           if alertBin h = int i then alertCol h else barColor h)"
proof -
  let ?all = "Histogram_allDots h dx dy"
  let ?pt = "dotCell (bx, by)"
  have ne: "Histogram_binDots h dx dy i \<noteq> []" using di by auto
  then have guards: "bins h \<noteq> []" "dx * 2 - 4 * 2 > 0" "dy * 4 - 4 * 2 > 0"
    by (auto simp: Histogram_binDots_def Let_def split: if_splits)
  have i: "i < length (bins h)" by (rule binDots_geometry(1)[OF di])
  have mem: "(bx, by, col) \<in> set ?all" using di i by (auto simp: allDots_iff)
  have nn: "\<forall>(bx, by, col)\<in>set ?all. 0 \<le> bx \<and> 0 \<le> by"
    by (auto simp: allDots_iff dest: binDots_nonneg)
  have at: "(bx, by, col) \<in> set (callsAt ?all ?pt)"
    using mem by (simp add: callsAt_def)
  then have cne: "callsAt ?all ?pt \<noteq> []" by auto
  have lin: "last (callsAt ?all ?pt) \<in> set (callsAt ?all ?pt)"
    using cne by (rule last_in_set)
  obtain bx' by' col' where l: "last (callsAt ?all ?pt) = (bx', by', col')"
    by (cases "last (callsAt ?all ?pt)")
  have "(bx', by', col') \<in> set (callsAt ?all ?pt)"
    using lin l by simp
  then have lm: "(bx', by', col') \<in> set ?all" and lc: "dotCell (bx', by') = ?pt"
    by (simp_all add: callsAt_def)
  from lm obtain j where j: "j < length (bins h)"
    and dj: "(bx', by', col') \<in> set (Histogram_binDots h dx dy j)"
    by (auto simp: allDots_iff)
  have "j = i" by (rule same_cell_same_bin[OF bw di dj lc])
  then have col': "col' = (if alertBin h = int i then alertCol h else barColor h)"
    using binDots_geometry(7)[OF dj] by simp
  have cc: "cellColor ?all ?pt = Some (if alertBin h = int i then alertCol h else barColor h)"
    using cne l col' by (simp add: cellColor_def)
  have inside: "0 \<le> fst ?pt \<and> fst ?pt < dx \<and> 0 \<le> snd ?pt \<and> snd ?pt < dy"
    using binDots_nonneg[OF di] binDots_geometry(4,6)[OF di]
    by (auto simp: dotCell_def) 
  show ?thesis
    using setDots_maps[OF nn, of ?pt] cne cc inside
    by (simp add: Histogram_Draw_setDots[OF guards] hist_write_def)
qed

lemma barWidth_five:
  assumes "length (bins h) = 5" "9 \<le> dx"
  shows "2 \<le> Histogram_barWidth h dx"
proof -
  have "(2::real) \<le> real_of_int (dx * 2 - 4 * 2) / 5"
    using assms(2) by simp
  then have "(2::real) \<le> max 1 (real_of_int (dx * 2 - 4 * 2) / 5)" by simp
  then show ?thesis
    using assms(1) by (simp add: Histogram_barWidth_def f2i_def le_floor_iff)
qed

lemma test_histogram_fields:
  "bins test_histogram = [1, 2, 3, 4, 5]" "alertBin test_histogram = 2"
  "alertCol test_histogram = ColorRed" "barColor test_histogram = ColorNumber 42"
  by (simp_all add: test_histogram_def Histogram_SetBins_def NewHistogram_def)

text \<open>
  C8. Claim: for the bins \<open>[1, 2, 3, 4, 5]\<close> with alert index 2, every cell painted for
  bin 2 ends in the alert colour and every cell painted for another bin in the base
  colour.
  On a canvas 5 cells wide and 5 high (the widget's minimum size) the bars are one
  dot wide: bin 2 sets the dot \<open>(6, 15)\<close>, bin 3 the dot \<open>(7, 15)\<close>, both in the cell
  \<open>(3, 3)\<close>, and the colour of a cell is the colour of its last writer. The cell ends
  with all eight dots set, in the base colour.
\<close>

theorem Histogram_alert_cell_overwritten_when_narrow:
  "(6, 15, ColorRed) \<in> set (Histogram_binDots test_histogram 5 5 2)
   \<and> dotCell (6, 15) = (3, 3)
   \<and> (7, 15, ColorNumber 42) \<in> set (Histogram_binDots test_histogram 5 5 3)
   \<and> dotCell (7, 15) = (3, 3)
   \<and> snd (Histogram_Draw test_histogram 5 5) (3, 3) = Some (0x28FF, ColorNumber 42)
   \<and> alertCol test_histogram = ColorRed"
  by code_simp

text \<open>
  C8, as the code has it: on a canvas at least 9 cells wide (bars at least two dots
  wide, so that no two bars share a cell), every cell in which the draw sets a dot
  for bin 2 ends in the alert colour, and every cell in which it sets a dot for
  another bin ends in the base bar colour.
\<close>

theorem Histogram_alert_bin_colours_when_wide:
  assumes "bins h = [1, 2, 3, 4, 5]" and "alertBin h = 2" and "9 \<le> dx"
    and "(bx, by, col) \<in> set (Histogram_binDots h dx dy i)"
  shows "\<exists>r. snd (Histogram_Draw h dx dy) (dotCell (bx, by))
              = Some (r, if i = 2 then alertCol h else barColor h)"
proof -
  have "2 \<le> Histogram_barWidth h dx"
    using assms(1,3) by (intro barWidth_five) simp_all
  from Histogram_Draw_cell [OF this assms(4)] assms(2)
  show ?thesis by auto
qed

theorem Histogram_alert_bin_colours_when_wide_witness:
  "(8, 15, ColorRed) \<in> set (Histogram_binDots test_histogram 9 5 2)
   \<and> (\<exists>r. snd (Histogram_Draw test_histogram 9 5) (dotCell (8, 15)) = Some (r, ColorRed))
   \<and> (10, 15, ColorNumber 42) \<in> set (Histogram_binDots test_histogram 9 5 3)
   \<and> (\<exists>r. snd (Histogram_Draw test_histogram 9 5) (dotCell (10, 15))
          = Some (r, ColorNumber 42))"
proof -
  have m2: "(8, 15, ColorRed) \<in> set (Histogram_binDots test_histogram 9 5 2)"
    by code_simp
  have m3: "(10, 15, ColorNumber 42) \<in> set (Histogram_binDots test_histogram 9 5 3)"
    by code_simp
  have w: "(9::int) \<le> 9" by simp
  from Histogram_alert_bin_colours_when_wide
         [OF test_histogram_fields(1) test_histogram_fields(2) w m2]
       Histogram_alert_bin_colours_when_wide
         [OF test_histogram_fields(1) test_histogram_fields(2) w m3]
       m2 m3
  show ?thesis by (simp add: test_histogram_fields)
qed

section \<open>Histogram: updates\<close>

text \<open>
  C10. \<open>Histogram.SetBins\<close> returns nil for every input and stores the bins, the
  range, the labels and the alert index as given, whatever they are: here also for
  a negative bin, a minimum above the maximum, one label for two bins and an alert
  index past the bins. The two colours are left as they were.
\<close>

theorem Histogram_SetBins_never_rejects:
  "snd (Histogram_SetBins h bs mn mx ls ab) = None
   \<and> bins (fst (Histogram_SetBins h bs mn mx ls ab)) = bs
   \<and> hist_min (fst (Histogram_SetBins h bs mn mx ls ab)) = mn
   \<and> hist_max (fst (Histogram_SetBins h bs mn mx ls ab)) = mx
   \<and> labels (fst (Histogram_SetBins h bs mn mx ls ab)) = ls
   \<and> alertBin (fst (Histogram_SetBins h bs mn mx ls ab)) = ab
   \<and> barColor (fst (Histogram_SetBins h bs mn mx ls ab)) = barColor h
   \<and> alertCol (fst (Histogram_SetBins h bs mn mx ls ab)) = alertCol h
   \<and> Histogram_SetBins NewHistogram [- 3, 7] (Finite 9) (Finite 1) [''x''] 99
       = (\<lparr>bins = [- 3, 7], hist_min = Finite 9, hist_max = Finite 1, labels = [''x''],
           barColor = ColorNumber 42, alertBin = 99, alertCol = ColorRed\<rparr>, None)"
  by (simp add: Histogram_SetBins_def NewHistogram_def)

section \<open>Drawing twice\<close>

text \<open>
  Of the six widgets only the table assigns a field in \<open>Draw\<close>: the current page,
  when it lies past the rows, and the rectangles of the two buttons. What a draw
  of the table puts on the canvas depends on the table only up to \<open>same_view\<close>, and
  the page that a draw resets is the page the next draw finds.
\<close>

lemma drawRow_view: "table_opts t' = table_opts t \<Longrightarrow> drawRow td t' = drawRow td t"
  unfolding drawRow_def fun_eq_iff by (simp only: simp_thms)

lemma drawRows_view:
  "table_opts t' = table_opts t \<Longrightarrow> drawRows td t' cvs cvsAr rs cw cy = drawRows td t cvs cvsAr rs cw cy"
proof (induction rs arbitrary: cvs cy)
  case Nil
  show ?case by simp
next
  case (Cons row rs)
  show ?case
    unfolding drawRows.simps drawRow_view[OF Cons.prems] Cons.IH[OF Cons.prems] ..
qed

lemma pageSlice_view:
  assumes "same_view t t'"
  shows "same_view (fst (table_pageSlice t)) (fst (table_pageSlice t'))"
    and "snd (table_pageSlice t') = snd (table_pageSlice t)"
  using assms by (simp_all add: same_view_def table_pageSlice_def Let_def)

lemma pageSlice_idem:
  "table_pageSlice (fst (table_pageSlice t)) = table_pageSlice t"
  by (simp add: table_pageSlice_def Let_def)


lemma pagination_view:
  assumes "same_view t t'"
  shows "snd (table_pagination td t' cvs ar) = snd (table_pagination td t cvs ar)"
proof -
  from assms have eqs: "numPages t' = numPages t" "currentPage t' = currentPage t"
    "table_opts t' = table_opts t"
    by (simp_all add: same_view_def)
  show ?thesis
    unfolding table_pagination_def Let_def
    by (simp add: eqs split: prod.splits option.splits)
qed

lemma pagination_keeps_view: "same_view t (fst (table_pagination td t cvs ar))"
  unfolding table_pagination_def Let_def same_view_def
  by (simp split: prod.splits option.splits)


lemma same_view_refl: "same_view t t"
  by (simp add: same_view_def)

lemma same_view_trans: "same_view a b \<Longrightarrow> same_view b c \<Longrightarrow> same_view a c"
  by (simp add: same_view_def)

lemma same_view_sym: "same_view a b \<Longrightarrow> same_view b a"
  by (simp add: same_view_def)

lemma drawPage_view:
  assumes "same_view t t'"
  shows "snd (table_drawPage td t' cvs ar cw cy) = snd (table_drawPage td t cvs ar cw cy)"
proof -
  obtain t1 s e where p: "table_pageSlice t = (t1, s, e)" by (cases "table_pageSlice t")
  obtain t1' s' e' where p': "table_pageSlice t' = (t1', s', e')" by (cases "table_pageSlice t'")
  from pageSlice_view[OF assms] p p' have v: "same_view t1 t1'" and se: "s' = s" "e' = e"
    by simp_all
  from v have eqs: "rows t1' = rows t1" "table_opts t1' = table_opts t1"
    by (simp_all add: same_view_def)
  have pg: "snd (table_pagination td t1' c ar) = snd (table_pagination td t1 c ar)" for c
    by (rule pagination_view[OF v])
  let ?page = "take (nat (e - s)) (drop (nat s) (rows t1))"
  have dr: "drawRows td t1' cvs ar (take (nat (e - s)) (drop (nat s) (rows t1'))) cw cy
          = drawRows td t1 cvs ar ?page cw cy"
    unfolding eqs(1) by (rule drawRows_view[OF eqs(2)])
  obtain c2 y2 r where d: "drawRows td t1 cvs ar ?page cw cy = ((c2, y2), r)"
    by (cases "drawRows td t1 cvs ar ?page cw cy") auto
  show ?thesis
    unfolding table_drawPage_def p p' se prod.case dr d
    by (cases r) (simp_all add: pg)
qed

lemma drawPage_fst:
  "same_view (fst (table_pageSlice t)) (fst (table_drawPage td t cvs ar cw cy))"
proof -
  obtain t1 s e where p: "table_pageSlice t = (t1, s, e)" by (cases "table_pageSlice t")
  let ?page = "take (nat (e - s)) (drop (nat s) (rows t1))"
  obtain c2 y2 r where d: "drawRows td t1 cvs ar ?page cw cy = ((c2, y2), r)"
    by (cases "drawRows td t1 cvs ar ?page cw cy") auto
  show ?thesis
    unfolding table_drawPage_def p prod.case d
    by (cases r) (simp_all add: same_view_refl pagination_keeps_view)
qed

lemma drawPage_pageSlice:
  "table_drawPage td (fst (table_pageSlice t)) cvs ar cw cy = table_drawPage td t cvs ar cw cy"
  unfolding table_drawPage_def pageSlice_idem ..


lemma Table_Draw_view:
  assumes "same_view t t'"
  shows "snd (Table_Draw td t' cvs) = snd (Table_Draw td t cvs)"
proof -
  from assms have eqs: "headers t' = headers t" "rows t' = rows t" "table_opts t' = table_opts t"
    by (simp_all add: same_view_def)
  have pg: "snd (table_drawPage td t' c ar cw cy) = snd (table_drawPage td t c ar cw cy)"
    for c ar cw cy
    by (rule drawPage_view[OF assms])
  show ?thesis
    unfolding Table_Draw_def Let_def eqs drawRow_view[OF eqs(3)]
    by (simp add: pg split: prod.splits option.splits)
qed

lemma Table_Draw_pageSlice:
  "snd (Table_Draw td (fst (table_pageSlice t)) cvs) = snd (Table_Draw td t cvs)"
proof -
  have eqs: "headers (fst (table_pageSlice t)) = headers t"
    "rows (fst (table_pageSlice t)) = rows t"
    "table_opts (fst (table_pageSlice t)) = table_opts t"
    by (simp_all add: table_pageSlice_def Let_def)
  show ?thesis
    unfolding Table_Draw_def Let_def eqs drawRow_view[OF eqs(3)] drawPage_pageSlice
    by (simp split: prod.splits option.splits)
qed

lemma Table_Draw_fst:
  "same_view t (fst (Table_Draw td t cvs))
   \<or> same_view (fst (table_pageSlice t)) (fst (Table_Draw td t cvs))"
  unfolding Table_Draw_def Let_def
  by (simp add: same_view_refl drawPage_fst split: prod.splits option.splits)

lemma Table_Draw_twice:
  "snd (Table_Draw td (fst (Table_Draw td t cvs)) cvs) = snd (Table_Draw td t cvs)"
  using Table_Draw_fst[of t td cvs]
proof
  assume "same_view t (fst (Table_Draw td t cvs))"
  then show ?thesis by (rule Table_Draw_view)
next
  assume "same_view (fst (table_pageSlice t)) (fst (Table_Draw td t cvs))"
  then have "snd (Table_Draw td (fst (Table_Draw td t cvs)) cvs)
      = snd (Table_Draw td (fst (table_pageSlice t)) cvs)"
    by (rule Table_Draw_view)
  then show ?thesis by (simp add: Table_Draw_pageSlice)
qed


lemma Funnel_Draw_fst: "fst (Funnel_Draw td f cvs) = f"
  unfolding Funnel_Draw_def Let_def
  by (simp split: sum.splits prod.splits option.splits)

lemma PieChart_Draw_fst: "fst (PieChart_Draw td p cvs) = p"
  unfolding PieChart_Draw_def Let_def
  by (simp split: sum.splits prod.splits option.splits)

lemma Radar_Draw_fst: "fst (Radar_Draw td r cvs) = r"
  unfolding Radar_Draw_def Let_def
  by (simp split: sum.splits prod.splits option.splits)

lemma ScatterPlot_Draw_fst: "fst (ScatterPlot_Draw s dx dy) = s"
  unfolding ScatterPlot_Draw_def Let_def by simp

lemma Histogram_Draw_fst: "fst (Histogram_Draw h dx dy) = h"
  unfolding Histogram_Draw_def Let_def by simp

text \<open>
  C9. For every widget in any state, a second \<open>Draw\<close> right after the first, on a
  canvas in the state the first one was given, leaves the canvas in the same state
  and returns the same error as the first: for the table, the funnel, the pie
  chart and the radar whatever the terminal library does, and for the scatter plot
  and the histogram, which write single cells, cell by cell with the same rune
  and colour.
\<close>

theorem Draw_twice_same_output:
  "snd (Table_Draw td (fst (Table_Draw td t cvs)) cvs) = snd (Table_Draw td t cvs)
   \<and> snd (Funnel_Draw td (fst (Funnel_Draw td f cvs)) cvs) = snd (Funnel_Draw td f cvs)
   \<and> snd (PieChart_Draw td (fst (PieChart_Draw td p cvs)) cvs) = snd (PieChart_Draw td p cvs)
   \<and> snd (Radar_Draw td (fst (Radar_Draw td r cvs)) cvs) = snd (Radar_Draw td r cvs)
   \<and> snd (ScatterPlot_Draw (fst (ScatterPlot_Draw s dx dy)) dx dy)
       = snd (ScatterPlot_Draw s dx dy)
   \<and> snd (Histogram_Draw (fst (Histogram_Draw h dx dy)) dx dy) = snd (Histogram_Draw h dx dy)"
  by (simp only: Table_Draw_twice Funnel_Draw_fst PieChart_Draw_fst Radar_Draw_fst
      ScatterPlot_Draw_fst Histogram_Draw_fst simp_thms)

theorem Draw_twice_same_output_witness:
  "currentPage stale_table = 4
   \<and> currentPage (fst (Table_Draw recorder stale_table [])) = 1
   \<and> snd (Table_Draw recorder (fst (Table_Draw recorder stale_table [])) [])
       = ([''fill'', ''c'', '' < Prev'', ''Next > '', ''Page 2 of 2''], None)
   \<and> length (fst (snd (Funnel_Draw recorder
         (fst (Funnel_Draw recorder
                \<lparr>funnel_values = [3, 1], funnel_colors = [ColorRed], funnel_total = 4\<rparr> []))
         []))) = 37
   \<and> snd (Histogram_Draw (fst (Histogram_Draw test_histogram 9 5)) 9 5) (4, 3)
       = Some (0x28FF, ColorRed)"
proof -
  have t0: "currentPage stale_table = 4"
    by (simp add: stale_table_def)
  have t1: "currentPage (fst (Table_Draw recorder stale_table [])) = 1"
    by code_simp
  have t2: "snd (Table_Draw recorder stale_table [])
      = ([''fill'', ''c'', '' < Prev'', ''Next > '', ''Page 2 of 2''], None)"
    by code_simp
  have f1: "length (fst (snd (Funnel_Draw recorder
        \<lparr>funnel_values = [3, 1], funnel_colors = [ColorRed], funnel_total = 4\<rparr> []))) = 37"
    by code_simp
  have h1: "snd (Histogram_Draw test_histogram 9 5) (4, 3) = Some (0x28FF, ColorRed)"
    by code_simp
  from Draw_twice_same_output
         [where td = recorder and t = stale_table and cvs = "[]"
            and f = "\<lparr>funnel_values = [3, 1], funnel_colors = [ColorRed], funnel_total = 4\<rparr>"
            and h = test_histogram and dx = 9 and dy = 5]
       t0 t1 t2 f1 h1
  show ?thesis by simp
qed

end
